theory Spec2Isabelle
  imports Complex_Main "HOL-Library.Char_ord" "HOL-Library.List_Lexorder" "HOL-Library.Multiset"
begin

section \<open>Values of the JavaScript runtime\<close>

text \<open>
  A JavaScript number is modelled as \<open>NaN\<close> or a finite real (doubles are idealised as
  reals; the infinities are left out).  A JSON value that can stand in a request body is
  \<open>undefined\<close> (the field is absent), \<open>null\<close>, a boolean, a number, a string or a plain
  object.
\<close>

datatype jsnum = NaN | Num real

datatype jsval = JUndefined | JNull | JBool bool | JNumber jsnum | JString string | JObject

datatype js_error = RangeError | SqliteError

text \<open>
  \<open>ToNumber\<close>, the coercion that \<open>*\<close> and \<open>-\<close> apply to their operands.  The
  numeric reading of a string literal is the runtime's \<open>StringToNumber\<close>; it is taken as the
  parameter \<open>s2n\<close>.  The arithmetic is the one of finite numbers, with \<open>NaN\<close> passed on; a
  division by zero, which the code never makes, is given as \<open>NaN\<close>.
\<close>

fun ToNumber :: "(string \<Rightarrow> jsnum) \<Rightarrow> jsval \<Rightarrow> jsnum" where
  "ToNumber s2n JUndefined = NaN"
| "ToNumber s2n JNull = Num 0"
| "ToNumber s2n (JBool b) = Num (if b then 1 else 0)"
| "ToNumber s2n (JNumber n) = n"
| "ToNumber s2n (JString s) = s2n s"
| "ToNumber s2n JObject = NaN"

fun js_mul :: "jsnum \<Rightarrow> jsnum \<Rightarrow> jsnum" where
  "js_mul (Num a) (Num b) = Num (a * b)"
| "js_mul _ _ = NaN"

fun js_sub :: "jsnum \<Rightarrow> jsnum \<Rightarrow> jsnum" where
  "js_sub (Num a) (Num b) = Num (a - b)"
| "js_sub _ _ = NaN"

fun js_div :: "jsnum \<Rightarrow> jsnum \<Rightarrow> jsnum" where
  "js_div (Num a) (Num b) = (if b = 0 then NaN else Num (a / b))"
| "js_div _ _ = NaN"

subsection \<open>Dates\<close>

text \<open>
  \<open>new Date(t)\<close> clips its argument: a \<open>NaN\<close> or a time beyond 8.64e15 ms from the epoch
  gives an invalid date, any other time is truncated to whole milliseconds.
  \<open>toISOString\<close> throws a \<open>RangeError\<close> on an invalid date and prints a valid one as
  \<open>YYYY-MM-DDTHH:mm:ss.sssZ\<close> (a signed six-digit year outside 0..9999).
\<close>

definition TimeClip :: "jsnum \<Rightarrow> int option" where
  "TimeClip t = (case t of
       NaN \<Rightarrow> None
     | Num x \<Rightarrow> if \<bar>x\<bar> > 8640000000000000 then None
               else Some (if 0 \<le> x then \<lfloor>x\<rfloor> else \<lceil>x\<rceil>))"

text \<open>
  \<open>pad w n\<close> is \<open>n\<close> in \<open>w\<close> decimal digits; \<open>civil_from_days\<close> is the date (year, month,
  day) of a day counted from 1970-01-01 in the proleptic Gregorian calendar, which is
  the calendar of \<open>Date\<close>.
\<close>

fun pad :: "nat \<Rightarrow> nat \<Rightarrow> string" where
  "pad 0 n = []"
| "pad (Suc w) n = pad w (n div 10) @ [''0123456789'' ! (n mod 10)]"

definition civil_from_days :: "int \<Rightarrow> int \<times> int \<times> int" where
  "civil_from_days z =
     (let z1 = z + 719468;
          era = z1 div 146097;
          doe = z1 - era * 146097;
          yoe = (doe - doe div 1460 + doe div 36524 - doe div 146096) div 365;
          y = yoe + era * 400;
          doy = doe - (365 * yoe + yoe div 4 - yoe div 100);
          mp = (5 * doy + 2) div 153;
          d = doy - (153 * mp + 2) div 5 + 1;
          m = (if mp < 10 then mp + 3 else mp - 9)
      in (if m \<le> 2 then y + 1 else y, m, d))"

definition year_string :: "int \<Rightarrow> string" where
  "year_string y =
     (if 0 \<le> y \<and> y \<le> 9999 then pad 4 (nat y)
      else (if y < 0 then ''-'' else ''+'') @ pad 6 (nat \<bar>y\<bar>))"

definition iso_format :: "int \<Rightarrow> string" where
  "iso_format t =
     (let ms = t mod 86400000;
          (y, m, d) = civil_from_days (t div 86400000)
      in year_string y @ ''-'' @ pad 2 (nat m) @ ''-'' @ pad 2 (nat d) @ ''T''
         @ pad 2 (nat (ms div 3600000)) @ '':'' @ pad 2 (nat (ms div 60000 mod 60)) @ '':''
         @ pad 2 (nat (ms div 1000 mod 60)) @ ''.'' @ pad 3 (nat (ms mod 1000)) @ ''Z'')"

definition Date_toISOString :: "jsnum \<Rightarrow> js_error + string" where
  "Date_toISOString t = (case TimeClip t of None \<Rightarrow> Inl RangeError | Some ms \<Rightarrow> Inr (iso_format ms))"

section \<open>The metrics store (AgentDBService)\<close>

text \<open>
  The table \<open>metrics\<close>: one row per stored metric, with the columns the queries read.
  \<open>timestamp\<close> is a TEXT column, compared as SQLite compares text (byte by byte, so the
  lexicographic order of strings); \<open>value\<close> is a REAL column.  \<open>id\<close> is
  \<open>INTEGER PRIMARY KEY AUTOINCREMENT\<close>: the next id is one more than the largest id ever
  given, which the store keeps in \<open>sqlite_sequence\<close>.  The column \<open>created_at\<close>, which no
  query reads, and the optional \<open>id\<close> of a \<open>DashboardMetric\<close>, which no insert reads, are
  left out.
\<close>

datatype MetricType = Line | Bar | Pie

record DashboardMetric =
  timestamp :: string
  metricType :: MetricType
  category :: "string option"
  mvalue :: jsnum
  metadata :: "string option"

record metrics_row =
  row_id :: nat
  row_timestamp :: string
  row_metricType :: MetricType
  row_category :: "string option"
  row_value :: real
  row_metadata :: "string option"

record metrics_db =
  metrics :: "metrics_row list"
  sqlite_sequence :: nat

text \<open>\<open>x || null\<close> on an optional string: absent and the empty string both give \<open>null\<close>.\<close>

definition or_null :: "string option \<Rightarrow> string option" where
  "or_null x = (case x of None \<Rightarrow> None | Some s \<Rightarrow> if s = [] then None else Some s)"

text \<open>
  One run of the prepared INSERT statement; the result is the new table and
  \<open>lastInsertRowid\<close>.  SQLite binds a \<open>NaN\<close> as NULL, which the column \<open>value REAL NOT NULL\<close>
  refuses: the statement then throws and changes nothing.
\<close>

definition insert_run :: "DashboardMetric \<Rightarrow> metrics_db \<Rightarrow> js_error + (metrics_db \<times> nat)" where
  "insert_run metric d =
     (case mvalue metric of
        NaN \<Rightarrow> Inl SqliteError
      | Num v \<Rightarrow>
          (let i = sqlite_sequence d + 1;
               r = \<lparr>row_id = i, row_timestamp = timestamp metric, row_metricType = metricType metric,
                    row_category = or_null (category metric), row_value = v,
                    row_metadata = or_null (metadata metric)\<rparr>
           in Inr (d\<lparr>metrics := metrics d @ [r], sqlite_sequence := i\<rparr>, i)))"

definition insertMetric :: "DashboardMetric \<Rightarrow> metrics_db \<Rightarrow> js_error + (metrics_db \<times> nat)" where
  "insertMetric metric d = insert_run metric d"

text \<open>
  \<open>insertMany\<close> is the loop over the items; a statement that throws ends it.
  \<open>db.transaction(f)\<close> runs \<open>f\<close> between BEGIN and COMMIT: when \<open>f\<close> returns, its writes are
  committed together; when it throws, they are rolled back and the exception goes on to
  the caller.  The second component of the result is the store after the call.
\<close>

fun insertMany :: "DashboardMetric list \<Rightarrow> metrics_db \<Rightarrow> js_error + metrics_db" where
  "insertMany [] d = Inr d"
| "insertMany (metric # items) d =
     (case insert_run metric d of Inl e \<Rightarrow> Inl e | Inr (d', i) \<Rightarrow> insertMany items d')"

definition transaction ::
  "(metrics_db \<Rightarrow> js_error + metrics_db) \<Rightarrow> metrics_db \<Rightarrow> js_error option \<times> metrics_db" where
  "transaction f d = (case f d of Inl e \<Rightarrow> (Some e, d) | Inr d' \<Rightarrow> (None, d'))"

definition insertMetricsBatch ::
  "DashboardMetric list \<Rightarrow> metrics_db \<Rightarrow> (js_error + nat) \<times> metrics_db" where
  "insertMetricsBatch ms d =
     (case transaction (insertMany ms) d of
        (Some e, d') \<Rightarrow> (Inl e, d')
      | (None, d') \<Rightarrow> (Inr (length ms), d'))"

text \<open>
  \<open>SELECT timestamp, value FROM metrics WHERE metricType = 'line' ORDER BY timestamp DESC LIMIT ?\<close>,
  then \<open>results.reverse()\<close>.  The order among equal timestamps is the store's choice; here it
  is the one of a backward scan of the timestamp index.  \<open>limit\<close> is a number of rows (the
  only caller passes 10); SQLite reads a negative limit as no limit, which is not
  modelled.
\<close>

definition line_rows :: "metrics_db \<Rightarrow> metrics_row list" where
  "line_rows d = filter (\<lambda>r. row_metricType r = Line) (metrics d)"

definition getLineChartData :: "nat \<Rightarrow> metrics_db \<Rightarrow> (string \<times> real) list" where
  "getLineChartData limit d =
     (let results = take limit (rev (sort_key row_timestamp (line_rows d)))
      in rev (map (\<lambda>r. (row_timestamp r, row_value r)) results))"

text \<open>
  \<open>SELECT category, SUM(value) FROM metrics WHERE metricType = ? AND category IS NOT NULL
  GROUP BY category ORDER BY category\<close>: the rows that pass the filter are gathered into
  one group per category, the groups kept in ascending order of the category, and each
  group is summed.  \<open>value\<close> is a REAL column, so \<open>SUM\<close> adds doubles, which round; how the
  store adds the values of a group is taken as the parameter \<open>summation\<close>, and nothing is
  assumed of it here.
\<close>

fun add_to_group ::
  "string \<Rightarrow> real \<Rightarrow> (string \<times> real list) list \<Rightarrow> (string \<times> real list) list" where
  "add_to_group c v [] = [(c, [v])]"
| "add_to_group c v ((k, vs) # g) =
     (if c = k then (k, vs @ [v]) # g
      else if c < k then (c, [v]) # (k, vs) # g
      else (k, vs) # add_to_group c v g)"

fun group_rows ::
  "MetricType \<Rightarrow> metrics_row list \<Rightarrow> (string \<times> real list) list \<Rightarrow> (string \<times> real list) list" where
  "group_rows t [] g = g"
| "group_rows t (r # rs) g =
     group_rows t rs
       (case row_category r of
          None \<Rightarrow> g
        | Some c \<Rightarrow> if row_metricType r = t then add_to_group c (row_value r) g else g)"

definition group_sum ::
  "(real list \<Rightarrow> real) \<Rightarrow> MetricType \<Rightarrow> metrics_row list \<Rightarrow> (string \<times> real) list" where
  "group_sum summation t rs = map (\<lambda>(c, vs). (c, summation vs)) (group_rows t rs [])"

definition getBarChartData :: "(real list \<Rightarrow> real) \<Rightarrow> metrics_db \<Rightarrow> (string \<times> real) list" where
  "getBarChartData summation d = group_sum summation Bar (metrics d)"

definition getPieChartData :: "(real list \<Rightarrow> real) \<Rightarrow> metrics_db \<Rightarrow> (string \<times> real) list" where
  "getPieChartData summation d = group_sum summation Pie (metrics d)"

definition getTotalEvents :: "metrics_db \<Rightarrow> nat" where
  "getTotalEvents d = length (metrics d)"

record DashboardData =
  lineChartData :: "(string \<times> real) list"
  barChartData :: "(string \<times> real) list"
  pieChartData :: "(string \<times> real) list"
  totalEvents :: nat
  lastUpdated :: string

text \<open>\<open>now\<close> is the reading of the clock, in milliseconds since the epoch.\<close>

definition getDashboardData ::
  "(real list \<Rightarrow> real) \<Rightarrow> int \<Rightarrow> metrics_db \<Rightarrow> DashboardData" where
  "getDashboardData summation now d =
     \<lparr>lineChartData = getLineChartData 10 d,
      barChartData = getBarChartData summation d,
      pieChartData = getPieChartData summation d,
      totalEvents = getTotalEvents d,
      lastUpdated = iso_format now\<rparr>"

text \<open>
  \<open>DELETE FROM metrics WHERE timestamp < ?\<close>: a scan of the table that drops the rows
  older than the bound and counts them (\<open>result.changes\<close>).
\<close>

fun delete_before :: "string \<Rightarrow> metrics_row list \<Rightarrow> metrics_row list \<times> nat" where
  "delete_before cutoff [] = ([], 0)"
| "delete_before cutoff (r # rs) =
     (let (kept, n) = delete_before cutoff rs
      in if row_timestamp r < cutoff then (kept, Suc n) else (r # kept, n))"

text \<open>
  \<open>cleanupOldData(hoursToKeep = 24)\<close>.  The bound is
  \<open>new Date(Date.now() - hoursToKeep * 60 * 60 * 1000).toISOString()\<close>, which throws when the
  date is invalid; the statement then never runs.
\<close>

definition cutoffTime :: "(string \<Rightarrow> jsnum) \<Rightarrow> int \<Rightarrow> jsval \<Rightarrow> js_error + string" where
  "cutoffTime s2n now hoursToKeep =
     (let h = (if hoursToKeep = JUndefined then JNumber (Num 24) else hoursToKeep)
      in Date_toISOString
           (js_sub (Num (real_of_int now))
              (js_mul (js_mul (js_mul (ToNumber s2n h) (Num 60)) (Num 60)) (Num 1000))))"

definition cleanupOldData ::
  "(string \<Rightarrow> jsnum) \<Rightarrow> int \<Rightarrow> jsval \<Rightarrow> metrics_db \<Rightarrow> js_error + (metrics_db \<times> nat)" where
  "cleanupOldData s2n now hoursToKeep d =
     (case cutoffTime s2n now hoursToKeep of
        Inl e \<Rightarrow> Inl e
      | Inr cutoff \<Rightarrow>
          (let (kept, changes) = delete_before cutoff (metrics d)
           in Inr (d\<lparr>metrics := kept\<rparr>, changes)))"

text \<open>
  The store of the retention scenario: two points, thirty hours and one hour before
  2025-11-03T00:00:00.000Z.
\<close>

definition scenario4_db :: metrics_db where
  "scenario4_db =
     \<lparr>metrics =
        [\<lparr>row_id = 1, row_timestamp = ''2025-11-01T18:00:00.000Z'', row_metricType = Line,
          row_category = None, row_value = 42, row_metadata = None\<rparr>,
         \<lparr>row_id = 2, row_timestamp = ''2025-11-02T23:00:00.000Z'', row_metricType = Line,
          row_category = None, row_value = 57, row_metadata = None\<rparr>],
      sqlite_sequence = 2\<rparr>"


text \<open>
  Specification of the aggregates: a stored point belongs to the group of a metric type
  and a category; a result is the aggregate of a type under a summation when its
  categories are strictly ascending and its entries are exactly the categories with at
  least one point, each with the summation of the values of its points; it is the
  aggregate of the type when the summation is the exact sum.
\<close>

definition matches :: "MetricType \<Rightarrow> string \<Rightarrow> metrics_row \<Rightarrow> bool" where
  "matches t c r = (row_metricType r = t \<and> row_category r = Some c)"

definition aggregate_with ::
  "(real list \<Rightarrow> real) \<Rightarrow> MetricType \<Rightarrow> metrics_db \<Rightarrow> (string \<times> real) list \<Rightarrow> bool" where
  "aggregate_with summation t d res =
     (sorted_wrt (<) (map fst res)
      \<and> (\<forall>c s. (c, s) \<in> set res \<longleftrightarrow>
             filter (matches t c) (metrics d) \<noteq> []
             \<and> s = summation (map row_value (filter (matches t c) (metrics d)))))"

definition aggregate_of :: "MetricType \<Rightarrow> metrics_db \<Rightarrow> (string \<times> real) list \<Rightarrow> bool" where
  "aggregate_of t d res = aggregate_with sum_list t d res"

text \<open>
  Doubles hold every integer up to \<open>2^53\<close> in magnitude, and a sum of doubles that can be
  held is not rounded.  A summation is exact on small integers when it gives the exact
  sum of every list of integers whose magnitudes add up to at most \<open>2^53\<close>; the points of
  a type are small integers when their values are integers whose magnitudes add up to
  at most \<open>2^53\<close>, as the values that the generator writes are.
\<close>

definition exact_on_small_integers :: "(real list \<Rightarrow> real) \<Rightarrow> bool" where
  "exact_on_small_integers summation =
     (\<forall>vs. (\<forall>v \<in> set vs. v \<in> \<int>) \<and> (\<Sum>v\<leftarrow>vs. \<bar>v\<bar>) \<le> 2 ^ 53 \<longrightarrow> summation vs = sum_list vs)"

definition small_integers :: "MetricType \<Rightarrow> metrics_db \<Rightarrow> bool" where
  "small_integers t d =
     ((\<forall>r \<in> set (metrics d). row_metricType r = t \<longrightarrow> row_value r \<in> \<int>)
      \<and> (\<Sum>r\<leftarrow>filter (\<lambda>r. row_metricType r = t) (metrics d). \<bar>row_value r\<bar>) \<le> 2 ^ 53)"

text \<open>
  A summation that agrees with the one of doubles on the lists of the scenarios: it is
  exact on them but for \<open>2^53\<close> and 1, whose sum no double holds and which add up to
  \<open>2^53\<close>.  With it, a store with these two values in one category.
\<close>

definition rounding_sum :: "real list \<Rightarrow> real" where
  "rounding_sum vs = (if vs = [9007199254740992, 1] then 9007199254740992 else sum_list vs)"

definition rounding_db :: metrics_db where
  "rounding_db =
     \<lparr>metrics =
        [\<lparr>row_id = 1, row_timestamp = ''2025-11-03T00:00:00.000Z'', row_metricType = Bar,
          row_category = Some ''Category A'', row_value = 9007199254740992, row_metadata = None\<rparr>,
         \<lparr>row_id = 2, row_timestamp = ''2025-11-03T00:00:00.200Z'', row_metricType = Bar,
          row_category = Some ''Category A'', row_value = 1, row_metadata = None\<rparr>],
      sqlite_sequence = 2\<rparr>"

text \<open>A store with bar points in two categories, given out of order, and the point added to it without a category.\<close>

definition aggregates_db :: metrics_db where
  "aggregates_db =
     \<lparr>metrics =
        [\<lparr>row_id = 1, row_timestamp = ''2025-11-03T00:00:00.000Z'', row_metricType = Bar,
          row_category = Some ''Category B'', row_value = 5, row_metadata = None\<rparr>,
         \<lparr>row_id = 2, row_timestamp = ''2025-11-03T00:00:00.000Z'', row_metricType = Bar,
          row_category = Some ''Category A'', row_value = 10, row_metadata = None\<rparr>,
         \<lparr>row_id = 3, row_timestamp = ''2025-11-03T00:00:00.000Z'', row_metricType = Pie,
          row_category = Some ''Category A'', row_value = 7, row_metadata = None\<rparr>,
         \<lparr>row_id = 4, row_timestamp = ''2025-11-03T00:00:00.200Z'', row_metricType = Bar,
          row_category = Some ''Category A'', row_value = 20, row_metadata = None\<rparr>,
         \<lparr>row_id = 5, row_timestamp = ''2025-11-03T00:00:00.200Z'', row_metricType = Line,
          row_category = None, row_value = 3, row_metadata = None\<rparr>],
      sqlite_sequence = 5\<rparr>"

definition uncategorised_bar :: DashboardMetric where
  "uncategorised_bar =
     \<lparr>timestamp = ''2025-11-03T00:00:00.400Z'', metricType = Bar, category = None,
      mvalue = Num 99, metadata = None\<rparr>"


section \<open>The data generator (DataGenerator)\<close>

text \<open>
  \<open>Math.random()\<close> is taken as the parameter \<open>rnd\<close>: \<open>rnd k\<close> is the value of the
  \<open>k\<close>-th draw of the call.  \<open>scaled rnd k a b\<close> is \<open>Math.floor(Math.random() * a) + b\<close>.
\<close>

definition categories :: "string list" where
  "categories = [''Category A'', ''Category B'', ''Category C'', ''Category D'']"

definition scaled :: "(nat \<Rightarrow> real) \<Rightarrow> nat \<Rightarrow> real \<Rightarrow> real \<Rightarrow> jsnum" where
  "scaled rnd k a b = Num (real_of_int \<lfloor>rnd k * a\<rfloor> + b)"

text \<open>
  The metrics of \<open>generateRealtimeData\<close>: one line point, then one bar and one pie point
  per category, all stamped with the time of the call.
\<close>

definition realtime_metrics :: "(nat \<Rightarrow> real) \<Rightarrow> int \<Rightarrow> DashboardMetric list" where
  "realtime_metrics rnd now =
     (let ts = iso_format now in
      \<lparr>timestamp = ts, metricType = Line, category = None, mvalue = scaled rnd 0 100 20,
       metadata = None\<rparr>
      # map (\<lambda>j. \<lparr>timestamp = ts, metricType = Bar, category = Some (categories ! j),
                  mvalue = scaled rnd (1 + j) 50 (- 25), metadata = None\<rparr>) [0..<length categories]
      @ map (\<lambda>j. \<lparr>timestamp = ts, metricType = Pie, category = Some (categories ! j),
                  mvalue = scaled rnd (5 + j) 30 (- 15), metadata = None\<rparr>) [0..<length categories])"

definition generateRealtimeData ::
  "(nat \<Rightarrow> real) \<Rightarrow> int \<Rightarrow> metrics_db \<Rightarrow> (js_error + DashboardMetric list) \<times> metrics_db" where
  "generateRealtimeData rnd now d =
     (let ms = realtime_metrics rnd now in
      case insertMetricsBatch ms d of
        (Inl e, d') \<Rightarrow> (Inl e, d')
      | (Inr n, d') \<Rightarrow> (Inr ms, d'))"

text \<open>
  A run of batch inserts, one call after the other; a call that throws leaves the store
  to the next call as it found it.  A batch is applied when none of its values is
  \<open>NaN\<close>.
\<close>

fun insert_batches :: "DashboardMetric list list \<Rightarrow> metrics_db \<Rightarrow> metrics_db" where
  "insert_batches [] d = d"
| "insert_batches (ms # bs) d = insert_batches bs (snd (insertMetricsBatch ms d))"

definition applied :: "DashboardMetric list \<Rightarrow> bool" where
  "applied ms = (\<forall>m \<in> set ms. mvalue m \<noteq> NaN)"

text \<open>A batch whose second value is not a number.\<close>

definition broken_batch :: "DashboardMetric list" where
  "broken_batch =
     [\<lparr>timestamp = ''2025-11-03T00:00:00.600Z'', metricType = Line, category = None,
       mvalue = Num 1, metadata = None\<rparr>,
      \<lparr>timestamp = ''2025-11-03T00:00:00.600Z'', metricType = Bar, category = Some ''Category A'',
       mvalue = NaN, metadata = None\<rparr>]"

text \<open>
  \<open>seedHistoricalData(hours = 1)\<close>.  The loop \<open>for (i = 60; i >= 0; i--)\<close> stamps one line
  point at \<open>now - i * intervalMs\<close>; \<open>toISOString\<close> throws on an invalid date, which ends
  the call before the store is reached.  The bar and pie points are stamped with \<open>now\<close>.
  \<open>k\<close> counts the draws of \<open>Math.random()\<close>.
\<close>

definition seed_point ::
  "(nat \<Rightarrow> real) \<Rightarrow> int \<Rightarrow> jsnum \<Rightarrow> nat \<Rightarrow> nat \<Rightarrow> js_error + DashboardMetric" where
  "seed_point rnd now intervalMs i k =
     (case Date_toISOString (js_sub (Num (real_of_int now)) (js_mul (Num (real i)) intervalMs)) of
        Inl e \<Rightarrow> Inl e
      | Inr ts \<Rightarrow> Inr \<lparr>timestamp = ts, metricType = Line, category = None,
                       mvalue = scaled rnd k 100 20, metadata = None\<rparr>)"

fun seed_lines ::
  "(nat \<Rightarrow> real) \<Rightarrow> int \<Rightarrow> jsnum \<Rightarrow> nat \<Rightarrow> nat \<Rightarrow> js_error + DashboardMetric list" where
  "seed_lines rnd now intervalMs 0 k =
     (case seed_point rnd now intervalMs 0 k of Inl e \<Rightarrow> Inl e | Inr m \<Rightarrow> Inr [m])"
| "seed_lines rnd now intervalMs (Suc i) k =
     (case seed_point rnd now intervalMs (Suc i) k of
        Inl e \<Rightarrow> Inl e
      | Inr m \<Rightarrow>
          (case seed_lines rnd now intervalMs i (Suc k) of
             Inl e \<Rightarrow> Inl e
           | Inr ms \<Rightarrow> Inr (m # ms)))"

definition seed_categories :: "(nat \<Rightarrow> real) \<Rightarrow> int \<Rightarrow> DashboardMetric list" where
  "seed_categories rnd now =
     map (\<lambda>j. \<lparr>timestamp = iso_format now, metricType = Bar, category = Some (categories ! j),
                mvalue = scaled rnd (61 + j) 500 100, metadata = None\<rparr>) [0..<length categories]
     @ map (\<lambda>j. \<lparr>timestamp = iso_format now, metricType = Pie, category = Some (categories ! j),
                  mvalue = scaled rnd (65 + j) 300 50, metadata = None\<rparr>) [0..<length categories]"

definition seedHistoricalData ::
  "(string \<Rightarrow> jsnum) \<Rightarrow> (nat \<Rightarrow> real) \<Rightarrow> int \<Rightarrow> jsval \<Rightarrow> metrics_db
     \<Rightarrow> (js_error + nat) \<times> metrics_db" where
  "seedHistoricalData s2n rnd now hours d =
     (let h = (if hours = JUndefined then JNumber (Num 1) else hours);
          intervalMs = js_div (js_mul (js_mul (js_mul (ToNumber s2n h) (Num 60)) (Num 60)) (Num 1000))
                         (Num 60)
      in case seed_lines rnd now intervalMs 60 0 of
           Inl e \<Rightarrow> (Inl e, d)
         | Inr ms \<Rightarrow> insertMetricsBatch (ms @ seed_categories rnd now) d)"

text \<open>The empty store the server starts with.\<close>

definition empty_db :: metrics_db where
  "empty_db = \<lparr>metrics = [], sqlite_sequence = 0\<rparr>"

text \<open>The line point that the seeding loop makes at \<open>i\<close> minutes before \<open>now\<close> with its \<open>k\<close>-th draw.\<close>

definition line_metric :: "(nat \<Rightarrow> real) \<Rightarrow> int \<Rightarrow> nat \<Rightarrow> nat \<Rightarrow> DashboardMetric" where
  "line_metric rnd now i k = \<lparr>timestamp = iso_format (now - int i * 60000), metricType = Line, category = None,
          mvalue = scaled rnd k 100 20, metadata = None\<rparr>"


section \<open>The HTTP handlers of the server (server/index.ts)\<close>

text \<open>
  A parsed JSON body is a list of fields.  \<open>const { hours = n } = req.body\<close> takes the
  field, or the default when the field is absent or \<open>undefined\<close>; nothing else is checked.
  A response is its status, its \<open>success\<close> flag, its \<open>error\<close> text and its number
  (\<open>count\<close> or \<open>deleted\<close>).
\<close>

record response =
  status :: nat
  success :: bool
  error_text :: "string option"
  number :: "nat option"

definition field_or :: "(string \<times> jsval) list \<Rightarrow> string \<Rightarrow> jsval \<Rightarrow> jsval" where
  "field_or body name dflt =
     (case map_of body name of
        None \<Rightarrow> dflt
      | Some v \<Rightarrow> if v = JUndefined then dflt else v)"

text \<open>\<open>app.post('/api/seed', ...)\<close>: any exception of the seeding is answered with status 500.\<close>

definition post_seed ::
  "(string \<Rightarrow> jsnum) \<Rightarrow> (nat \<Rightarrow> real) \<Rightarrow> int \<Rightarrow> (string \<times> jsval) list \<Rightarrow> metrics_db
     \<Rightarrow> response \<times> metrics_db" where
  "post_seed s2n rnd now body d =
     (let hours = field_or body ''hours'' (JNumber (Num 1)) in
      case seedHistoricalData s2n rnd now hours d of
        (Inr n, d') \<Rightarrow>
          (\<lparr>status = 200, success = True, error_text = None, number = Some n\<rparr>, d')
      | (Inl e, d') \<Rightarrow>
          (\<lparr>status = 500, success = False, error_text = Some ''Failed to seed data'',
            number = None\<rparr>, d'))"

text \<open>\<open>app.delete('/api/cleanup', ...)\<close>.\<close>

definition delete_cleanup ::
  "(string \<Rightarrow> jsnum) \<Rightarrow> int \<Rightarrow> (string \<times> jsval) list \<Rightarrow> metrics_db
     \<Rightarrow> response \<times> metrics_db" where
  "delete_cleanup s2n now body d =
     (let hours = field_or body ''hours'' (JNumber (Num 24)) in
      case cleanupOldData s2n now hours d of
        Inr (d', deleted) \<Rightarrow>
          (\<lparr>status = 200, success = True, error_text = None, number = Some deleted\<rparr>, d')
      | Inl e \<Rightarrow>
          (\<lparr>status = 500, success = False, error_text = Some ''Failed to cleanup data'',
            number = None\<rparr>, d))"

text \<open>
  A reading of string literals that agrees with the runtime's on the strings of the
  scenarios: \<open>"24"\<close> is the number 24, \<open>"abc"\<close> is not a number.
\<close>

definition s2n_sample :: "string \<Rightarrow> jsnum" where
  "s2n_sample s = (if s = ''24'' then Num 24 else NaN)"

section \<open>The broadcast server (server/index.ts)\<close>

text \<open>
  A server-side socket of the \<open>ws\<close> library: its identity, its \<open>readyState\<close>, and
  whether a call of \<open>send\<close> on it throws (a fact of the environment).  \<open>clients\<close> is a
  JavaScript \<open>Set\<close>, iterated in insertion order: a list without repetition.
\<close>

datatype readyState = CONNECTING | OPEN | CLOSING | CLOSED

record socket =
  socket_id :: nat
  readyState :: readyState
  send_throws :: bool

datatype message_type = Initial | Update

record message =
  msg_type :: message_type
  msg_data :: DashboardData
  msg_timestamp :: "string option"

datatype send_error = SendError

definition clients_add :: "socket \<Rightarrow> socket list \<Rightarrow> socket list" where
  "clients_add ws clients = (if ws \<in> set clients then clients else clients @ [ws])"

definition clients_delete :: "socket \<Rightarrow> socket list \<Rightarrow> socket list" where
  "clients_delete ws clients = removeAll ws clients"

text \<open>The handlers of a connection's \<open>close\<close> and \<open>error\<close> events.\<close>

definition on_close :: "socket \<Rightarrow> socket list \<Rightarrow> socket list" where
  "on_close ws clients = clients_delete ws clients"

definition on_error :: "socket \<Rightarrow> socket list \<Rightarrow> socket list" where
  "on_error ws clients = clients_delete ws clients"

text \<open>
  \<open>clients.forEach((client) => { if (client.readyState === WebSocket.OPEN) client.send(message) })\<close>.
  The result is the list of sockets the message was handed to, in order, and the
  exception that ended the loop, if one did: nothing in the loop catches it.
\<close>

fun forEach_send :: "socket list \<Rightarrow> nat list \<times> send_error option" where
  "forEach_send [] = ([], None)"
| "forEach_send (client # rest) =
     (if readyState client = OPEN then
        (if send_throws client then ([], Some SendError)
         else (let (sent, e) = forEach_send rest in (socket_id client # sent, e)))
      else forEach_send rest)"

text \<open>
  \<open>broadcastUpdate()\<close>: the set of clients after the call, the deliveries (socket and
  message) and the exception that left the call, if any.
\<close>

definition broadcastUpdate ::
  "(real list \<Rightarrow> real) \<Rightarrow> int \<Rightarrow> metrics_db \<Rightarrow> socket list
     \<Rightarrow> socket list \<times> (nat \<times> message) list \<times> send_error option" where
  "broadcastUpdate summation now d clients =
     (if length clients = 0 then (clients, [], None)
      else
        (let data = getDashboardData summation now d;
             message = \<lparr>msg_type = Update, msg_data = data, msg_timestamp = Some (iso_format now)\<rparr>;
             (sent, e) = forEach_send clients
         in (clients, map (\<lambda>i. (i, message)) sent, e)))"

text \<open>Three connections: one that is closing, one whose \<open>send\<close> throws, one that is sound.\<close>

definition closing_socket :: socket where
  "closing_socket = \<lparr>socket_id = 1, readyState = CLOSING, send_throws = False\<rparr>"

definition throwing_socket :: socket where
  "throwing_socket = \<lparr>socket_id = 2, readyState = OPEN, send_throws = True\<rparr>"

definition sound_socket :: socket where
  "sound_socket = \<lparr>socket_id = 3, readyState = OPEN, send_throws = False\<rparr>"


section \<open>The push transport of the client (useAgentDBWebSocket)\<close>

text \<open>
  The options of the hook; \<open>url_valid\<close> says whether \<open>new WebSocket(url)\<close> accepts the URL (it
  throws on a malformed one).  The defaults are an interval of 3000 ms and 10 attempts.
\<close>

record ws_options =
  url_valid :: bool
  reconnectInterval :: nat
  maxReconnectAttempts :: nat

definition default_options :: ws_options where
  "default_options = \<lparr>url_valid = True, reconnectInterval = 3000, maxReconnectAttempts = 10\<rparr>"

text \<open>
  The state of one hook instance: its React state (\<open>data\<close>, \<open>isConnected\<close>, \<open>error\<close>,
  \<open>reconnectAttempt\<close>), its refs, and what the browser holds for it: the sockets it has
  created that have not fired \<open>close\<close> yet, with their \<open>readyState\<close>, and its pending
  timeouts.  \<open>signals\<close> records, in order, the error texts it has set and the callbacks it
  has called.
\<close>

datatype signal = SetError string | OnConnect | OnDisconnect | OnError

record ws_hook =
  ws_data :: "DashboardData option"
  isConnected :: bool
  ws_error :: "string option"
  reconnectAttempt :: nat
  wsRef :: "nat option"
  reconnectTimeoutRef :: "nat option"
  ws_mountedRef :: bool
  reconnectAttemptRef :: nat
  intentionalCloseRef :: bool
  sockets :: "(nat \<times> readyState) list"
  timers :: "nat list"
  next_socket :: nat
  next_timer :: nat
  signals :: "signal list"

definition ws_initial :: ws_hook where
  "ws_initial =
     \<lparr>ws_data = None, isConnected = False, ws_error = None, reconnectAttempt = 0,
      wsRef = None, reconnectTimeoutRef = None, ws_mountedRef = True, reconnectAttemptRef = 0,
      intentionalCloseRef = False, sockets = [], timers = [], next_socket = 0, next_timer = 0,
      signals = []\<rparr>"

text \<open>\<open>connect()\<close>: a new socket in state CONNECTING, kept in \<open>wsRef\<close>.\<close>

definition connect :: "ws_options \<Rightarrow> ws_hook \<Rightarrow> ws_hook" where
  "connect opts s =
     (if \<not> ws_mountedRef s then s
      else if \<not> url_valid opts then
        s\<lparr>ws_error := Some ''Failed to establish WebSocket connection'',
          signals := signals s @ [SetError ''Failed to establish WebSocket connection'']\<rparr>
      else
        (let ws = next_socket s
         in s\<lparr>sockets := sockets s @ [(ws, CONNECTING)], next_socket := ws + 1, wsRef := Some ws\<rparr>))"

text \<open>The four handlers that \<open>connect\<close> gives every socket.\<close>

definition ws_onopen :: "ws_hook \<Rightarrow> ws_hook" where
  "ws_onopen s =
     s\<lparr>isConnected := True, ws_error := None, reconnectAttemptRef := 0, reconnectAttempt := 0,
       signals := signals s @ [OnConnect]\<rparr>"

text \<open>\<open>parsed\<close> is \<open>None\<close> when \<open>JSON.parse\<close> throws; the handler catches that.\<close>

definition ws_onmessage :: "DashboardData option \<Rightarrow> ws_hook \<Rightarrow> ws_hook" where
  "ws_onmessage parsed s = (case parsed of None \<Rightarrow> s | Some d \<Rightarrow> s\<lparr>ws_data := Some d\<rparr>)"

definition ws_onerror :: "ws_hook \<Rightarrow> ws_hook" where
  "ws_onerror s =
     s\<lparr>ws_error := Some ''WebSocket connection error'',
       signals := signals s @ [SetError ''WebSocket connection error'', OnError]\<rparr>"

definition ws_onclose :: "ws_options \<Rightarrow> ws_hook \<Rightarrow> ws_hook" where
  "ws_onclose opts s =
     (let s1 = s\<lparr>isConnected := False, wsRef := None, signals := signals s @ [OnDisconnect]\<rparr>
      in if intentionalCloseRef s1 then s1\<lparr>intentionalCloseRef := False\<rparr>
         else if ws_mountedRef s1 \<and> reconnectAttemptRef s1 < maxReconnectAttempts opts then
           (let n = reconnectAttemptRef s1 + 1; t = next_timer s1
            in s1\<lparr>reconnectAttemptRef := n, reconnectAttempt := n, reconnectTimeoutRef := Some t,
                  timers := timers s1 @ [t], next_timer := t + 1\<rparr>)
         else if reconnectAttemptRef s1 \<ge> maxReconnectAttempts opts then
           s1\<lparr>ws_error := Some ''Max reconnection attempts reached'',
              signals := signals s1 @ [SetError ''Max reconnection attempts reached'']\<rparr>
         else s1)"

text \<open>\<open>WebSocket.close()\<close>: an open or connecting socket starts closing; its \<open>close\<close> event comes later.\<close>

definition socket_close :: "nat \<Rightarrow> ws_hook \<Rightarrow> ws_hook" where
  "socket_close ws s =
     s\<lparr>sockets := map (\<lambda>(i, st). if i = ws \<and> (st = OPEN \<or> st = CONNECTING) then (i, CLOSING) else (i, st))
                     (sockets s)\<rparr>"

text \<open>The effect that runs on mount, and its cleanup on unmount.\<close>

definition ws_mount :: "ws_options \<Rightarrow> ws_hook \<Rightarrow> ws_hook" where
  "ws_mount opts s = connect opts (s\<lparr>ws_mountedRef := True\<rparr>)"

definition ws_unmount :: "ws_hook \<Rightarrow> ws_hook" where
  "ws_unmount s =
     (let s1 = s\<lparr>ws_mountedRef := False\<rparr>;
          s2 = (case reconnectTimeoutRef s1 of
                  None \<Rightarrow> s1
                | Some t \<Rightarrow> s1\<lparr>timers := removeAll t (timers s1)\<rparr>)
      in case wsRef s2 of
           None \<Rightarrow> s2
         | Some ws \<Rightarrow>
             (let s3 = s2\<lparr>intentionalCloseRef := True\<rparr>;
                  s4 = (if (ws, OPEN) \<in> set (sockets s3) \<or> (ws, CONNECTING) \<in> set (sockets s3)
                        then socket_close ws s3 else s3)
              in s4\<lparr>wsRef := None\<rparr>))"

text \<open>The manual \<open>reconnect()\<close>.\<close>

definition reconnect :: "ws_options \<Rightarrow> ws_hook \<Rightarrow> ws_hook" where
  "reconnect opts s =
     (let s1 = (case wsRef s of None \<Rightarrow> s | Some ws \<Rightarrow> socket_close ws s);
          s2 = s1\<lparr>reconnectAttemptRef := 0, reconnectAttempt := 0\<rparr>
      in connect opts s2)"

text \<open>
  What can happen to a hook: the component mounts or unmounts, a socket opens, delivers a
  message, reports an error or closes, a timeout fires, the caller asks for a reconnect.
  An event of a socket or timer that the browser does not hold cannot happen and changes
  nothing.
\<close>

datatype ws_event =
  Mount | Unmount
  | SocketOpen nat | SocketMessage nat "DashboardData option" | SocketError nat | SocketClose nat
  | TimerFire nat
  | Reconnect

fun ws_step :: "ws_options \<Rightarrow> ws_hook \<Rightarrow> ws_event \<Rightarrow> ws_hook" where
  "ws_step opts s Mount = ws_mount opts s"
| "ws_step opts s Unmount = ws_unmount s"
| "ws_step opts s (SocketOpen ws) =
     (if (ws, CONNECTING) \<in> set (sockets s)
      then ws_onopen (s\<lparr>sockets := map (\<lambda>(i, st). if i = ws then (i, OPEN) else (i, st)) (sockets s)\<rparr>)
      else s)"
| "ws_step opts s (SocketMessage ws parsed) =
     (if (ws, OPEN) \<in> set (sockets s) then ws_onmessage parsed s else s)"
| "ws_step opts s (SocketError ws) =
     (if ws \<in> fst ` set (sockets s) then ws_onerror s else s)"
| "ws_step opts s (SocketClose ws) =
     (if ws \<in> fst ` set (sockets s)
      then ws_onclose opts (s\<lparr>sockets := filter (\<lambda>(i, st). i \<noteq> ws) (sockets s)\<rparr>)
      else s)"
| "ws_step opts s (TimerFire t) =
     (if t \<in> set (timers s) then connect opts (s\<lparr>timers := removeAll t (timers s)\<rparr>) else s)"
| "ws_step opts s Reconnect = reconnect opts s"

definition ws_run :: "ws_options \<Rightarrow> ws_hook \<Rightarrow> ws_event list \<Rightarrow> ws_hook" where
  "ws_run opts s evs = foldl (ws_step opts) s evs"

text \<open>
  One failed connection attempt: the socket of the attempt reports an error and closes,
  and the timeout that the close handler set, if it set one, fires.  In a run of
  failures from the mount, the \<open>k\<close>-th attempt (from 0) has socket \<open>k\<close> and timeout \<open>k\<close>.
\<close>

definition failure :: "nat \<Rightarrow> ws_event list" where
  "failure k = [SocketError k, SocketClose k, TimerFire k]"

definition failures :: "nat \<Rightarrow> ws_event list" where
  "failures n = concat (map failure [0..<n])"

text \<open>The hook while its attempt number \<open>n\<close> is under way in such a run.\<close>

definition attempting :: "nat \<Rightarrow> ws_hook \<Rightarrow> bool" where
  "attempting n s =
     (ws_mountedRef s \<and> \<not> intentionalCloseRef s \<and> reconnectAttemptRef s = n \<and> reconnectAttempt s = n
      \<and> wsRef s = Some n \<and> sockets s = [(n, CONNECTING)] \<and> timers s = []
      \<and> next_socket s = Suc n \<and> next_timer s = n
      \<and> count_list (signals s) (SetError ''Max reconnection attempts reached'') = 0)"


section \<open>The pull transport of the client (useAgentDBPolling)\<close>

text \<open>
  The state of one hook instance: its React state, its refs, the \<open>enabled\<close> option as of
  the last render, and what the browser holds for it: its running intervals and the
  number of its fetches that have not settled yet.  \<open>onError_calls\<close> records the messages
  handed to the \<open>onError\<close> callback.
\<close>

record poll_hook =
  poll_data :: "DashboardData option"
  loading :: bool
  poll_error :: "string option"
  lastFetch :: "int option"
  intervalRef :: "nat option"
  poll_mountedRef :: bool
  fetchingRef :: bool
  enabled :: bool
  intervals :: "nat list"
  next_interval :: nat
  in_flight :: nat
  onError_calls :: "string list"

definition poll_initial :: "bool \<Rightarrow> poll_hook" where
  "poll_initial en =
     \<lparr>poll_data = None, loading = True, poll_error = None, lastFetch = None, intervalRef = None,
      poll_mountedRef = True, fetchingRef = False, enabled = en, intervals = [], next_interval = 0,
      in_flight = 0, onError_calls = []\<rparr>"

text \<open>\<open>fetchData()\<close> up to its first \<open>await\<close>: the guard, the flag, the request.\<close>

definition fetchData :: "poll_hook \<Rightarrow> poll_hook" where
  "fetchData s =
     (if \<not> poll_mountedRef s \<or> fetchingRef s \<or> \<not> enabled s then s
      else s\<lparr>fetchingRef := True, in_flight := in_flight s + 1\<rparr>)"

text \<open>
  The rest of \<open>fetchData()\<close>, when its request settles.  It succeeded with a snapshot, or
  it failed with a message: the request was rejected, the status was not ok, or the
  body was not a success with data.  \<open>clock\<close> is the reading of the clock.
\<close>

datatype fetch_outcome = Succeeded DashboardData | Failed string

definition fetch_settled :: "fetch_outcome \<Rightarrow> int \<Rightarrow> poll_hook \<Rightarrow> poll_hook" where
  "fetch_settled outcome clock s =
     (let s1 = s\<lparr>in_flight := in_flight s - 1\<rparr>
      in if \<not> poll_mountedRef s1 then s1
         else (case outcome of
                 Succeeded d \<Rightarrow>
                   s1\<lparr>poll_data := Some d, poll_error := None, lastFetch := Some clock,
                      loading := False, fetchingRef := False\<rparr>
               | Failed msg \<Rightarrow>
                   s1\<lparr>poll_error := Some msg, onError_calls := onError_calls s1 @ [msg],
                      loading := False, fetchingRef := False\<rparr>))"

text \<open>
  The two effects, and the cleanup that the interval effect returns when it has set an
  interval.
\<close>

definition initial_fetch_effect :: "poll_hook \<Rightarrow> poll_hook" where
  "initial_fetch_effect s = (if enabled s then fetchData s else s)"

definition clear_interval :: "poll_hook \<Rightarrow> poll_hook" where
  "clear_interval s =
     (case intervalRef s of
        None \<Rightarrow> s
      | Some i \<Rightarrow> s\<lparr>intervals := removeAll i (intervals s), intervalRef := None\<rparr>)"

definition interval_effect :: "poll_hook \<Rightarrow> poll_hook" where
  "interval_effect s =
     (if \<not> enabled s then clear_interval s
      else (let i = next_interval s
            in s\<lparr>intervalRef := Some i, intervals := intervals s @ [i], next_interval := i + 1\<rparr>))"

definition interval_cleanup :: "poll_hook \<Rightarrow> poll_hook" where
  "interval_cleanup s = (if enabled s then clear_interval s else s)"

text \<open>
  Mounting runs both effects.  A render with a changed \<open>enabled\<close>, or with a new
  \<open>fetchData\<close> (its dependencies \<open>url\<close> and \<open>onError\<close> changed), runs the cleanup of the
  last render and then both effects again.  Unmounting runs the cleanup and clears
  \<open>mountedRef\<close>.
\<close>

definition poll_mount :: "poll_hook \<Rightarrow> poll_hook" where
  "poll_mount s = interval_effect (initial_fetch_effect s)"

definition poll_render :: "bool \<Rightarrow> poll_hook \<Rightarrow> poll_hook" where
  "poll_render en s = interval_effect (initial_fetch_effect ((interval_cleanup s)\<lparr>enabled := en\<rparr>))"

definition set_enabled :: "bool \<Rightarrow> poll_hook \<Rightarrow> poll_hook" where
  "set_enabled en s = (if en = enabled s then s else poll_render en s)"

definition poll_unmount :: "poll_hook \<Rightarrow> poll_hook" where
  "poll_unmount s = (interval_cleanup s)\<lparr>poll_mountedRef := False\<rparr>"

definition refresh :: "poll_hook \<Rightarrow> poll_hook" where
  "refresh s = fetchData (s\<lparr>loading := True\<rparr>)"

text \<open>
  What can happen to a hook.  A tick of an interval that is not running and the
  settling of a fetch when none is outstanding cannot happen and change nothing.
\<close>

datatype poll_event =
  PollMount | PollUnmount | SetEnabled bool | Rerender
  | Tick nat | FetchSettled fetch_outcome int | Refresh

fun poll_step :: "poll_hook \<Rightarrow> poll_event \<Rightarrow> poll_hook" where
  "poll_step s PollMount = poll_mount s"
| "poll_step s PollUnmount = poll_unmount s"
| "poll_step s (SetEnabled en) = set_enabled en s"
| "poll_step s Rerender = poll_render (enabled s) s"
| "poll_step s (Tick i) = (if i \<in> set (intervals s) then fetchData s else s)"
| "poll_step s (FetchSettled outcome clock) = (if 0 < in_flight s then fetch_settled outcome clock s else s)"
| "poll_step s Refresh = refresh s"

definition poll_run :: "poll_hook \<Rightarrow> poll_event list \<Rightarrow> poll_hook" where
  "poll_run s evs = foldl poll_step s evs"

text \<open>The in-flight guard: a fetch is outstanding only while \<open>fetchingRef\<close> is set, and at most one is.\<close>

definition guarded :: "poll_hook \<Rightarrow> bool" where
  "guarded s = (in_flight s \<le> 1 \<and> (in_flight s = 0 \<or> fetchingRef s))"


section \<open>The supervisor (the Dashboard component)\<close>

text \<open>
  The component holds the connection mode and a snackbar, and calls both hooks on every
  render: the push hook with fixed options, the pull hook with
  \<open>enabled: mode === 'polling'\<close> and an \<open>onError\<close> made anew by each render.
\<close>

datatype ConnectionMode = Websocket | Polling

record dashboard =
  mode :: ConnectionMode
  snackbarOpen :: bool
  snackbarMessage :: string
  websocket :: ws_hook
  polling :: poll_hook

text \<open>\<open>error.includes(part)\<close>, and the test of the fallback effect on the error of the push hook.\<close>

fun str_includes :: "string \<Rightarrow> string \<Rightarrow> bool" where
  "str_includes part [] = (part = [])"
| "str_includes part (c # cs) = (take (length part) (c # cs) = part \<or> str_includes part cs)"

definition max_error :: "ws_hook \<Rightarrow> bool" where
  "max_error w = (case ws_error w of None \<Rightarrow> False | Some e \<Rightarrow> str_includes ''Max reconnection'' e)"

definition activeData :: "dashboard \<Rightarrow> DashboardData option" where
  "activeData d = (if mode d = Websocket then ws_data (websocket d) else poll_data (polling d))"

text \<open>
  One render with its effects.  The new \<open>onError\<close> gives the pull hook a new
  \<open>fetchData\<close>, so its effects run again on every render.  The fallback effect then
  switches a failed push mode to polling, which renders once more.
\<close>

definition render_once :: "dashboard \<Rightarrow> dashboard" where
  "render_once d = d\<lparr>polling := poll_render (mode d = Polling) (polling d)\<rparr>"

definition fallback_effect :: "dashboard \<Rightarrow> dashboard option" where
  "fallback_effect d =
     (if mode d = Websocket \<and> max_error (websocket d)
      then Some (d\<lparr>mode := Polling,
                   snackbarMessage := ''WebSocket connection failed. Switched to polling mode.'',
                   snackbarOpen := True\<rparr>)
      else None)"

definition render :: "dashboard \<Rightarrow> dashboard" where
  "render d =
     (let d1 = render_once d
      in case fallback_effect d1 of None \<Rightarrow> d1 | Some d2 \<Rightarrow> render_once d2)"

definition dashboard_mount :: "ws_options \<Rightarrow> ConnectionMode \<Rightarrow> dashboard" where
  "dashboard_mount opts defaultMode =
     (let d = \<lparr>mode = defaultMode, snackbarOpen = False, snackbarMessage = [],
               websocket = ws_mount opts ws_initial,
               polling = poll_mount (poll_initial (defaultMode = Polling))\<rparr>
      in case fallback_effect d of None \<Rightarrow> d | Some d2 \<Rightarrow> render_once d2)"

text \<open>React renders again when an event has changed the state that the component reads.\<close>

definition view ::
  "dashboard \<Rightarrow> (ConnectionMode \<times> bool \<times> string)
     \<times> (DashboardData option \<times> bool \<times> string option \<times> nat)
     \<times> (DashboardData option \<times> bool \<times> string option \<times> int option)" where
  "view d =
     ((mode d, snackbarOpen d, snackbarMessage d),
      (ws_data (websocket d), isConnected (websocket d), ws_error (websocket d),
       reconnectAttempt (websocket d)),
      (poll_data (polling d), loading (polling d), poll_error (polling d), lastFetch (polling d)))"

definition rerender_if_changed :: "dashboard \<Rightarrow> dashboard \<Rightarrow> dashboard" where
  "rerender_if_changed before after = (if view after = view before then after else render after)"

text \<open>\<open>handleModeChange\<close>, and the callbacks that the component gives to the hooks.\<close>

definition handleModeChange :: "ConnectionMode option \<Rightarrow> dashboard \<Rightarrow> dashboard" where
  "handleModeChange newMode d =
     (case newMode of
        None \<Rightarrow> d
      | Some m \<Rightarrow>
          d\<lparr>mode := m,
            snackbarMessage := (if m = Websocket then ''Switched to WebSocket mode''
                                else ''Switched to Polling mode''),
            snackbarOpen := True\<rparr>)"

definition handleWebSocketError :: "dashboard \<Rightarrow> dashboard" where
  "handleWebSocketError d = d\<lparr>snackbarMessage := ''WebSocket error occurred'', snackbarOpen := True\<rparr>"

definition handlePollingError :: "dashboard \<Rightarrow> dashboard" where
  "handlePollingError d = d\<lparr>snackbarMessage := ''Failed to fetch data'', snackbarOpen := True\<rparr>"

text \<open>
  What can happen to a mounted component: an event of a socket or timeout of the push
  hook, a tick or a settled fetch of the pull hook, a change of mode by the user.  The
  component never calls \<open>reconnect\<close> or \<open>refresh\<close>.
\<close>

datatype dashboard_event =
  SocketEvent ws_event | PollingEvent poll_event | HandleModeChange "ConnectionMode option"

fun of_browser :: "ws_event \<Rightarrow> bool" where
  "of_browser (SocketOpen ws) = True"
| "of_browser (SocketMessage ws parsed) = True"
| "of_browser (SocketError ws) = True"
| "of_browser (SocketClose ws) = True"
| "of_browser (TimerFire t) = True"
| "of_browser _ = False"

fun of_poll_loop :: "poll_event \<Rightarrow> bool" where
  "of_poll_loop (Tick i) = True"
| "of_poll_loop (FetchSettled outcome clock) = True"
| "of_poll_loop _ = False"

fun dashboard_step :: "ws_options \<Rightarrow> dashboard \<Rightarrow> dashboard_event \<Rightarrow> dashboard" where
  "dashboard_step opts d (SocketEvent e) =
     (if \<not> of_browser e then d
      else
        (let w = ws_step opts (websocket d) e;
             d1 = d\<lparr>websocket := w\<rparr>;
             d2 = (if count_list (signals w) OnError > count_list (signals (websocket d)) OnError
                   then handleWebSocketError d1 else d1)
         in rerender_if_changed d d2))"
| "dashboard_step opts d (PollingEvent e) =
     (if \<not> of_poll_loop e then d
      else
        (let p = poll_step (polling d) e;
             d1 = d\<lparr>polling := p\<rparr>;
             d2 = (if length (onError_calls p) > length (onError_calls (polling d))
                   then handlePollingError d1 else d1)
         in rerender_if_changed d d2))"
| "dashboard_step opts d (HandleModeChange newMode) =
     rerender_if_changed d (handleModeChange newMode d)"

definition dashboard_run :: "ws_options \<Rightarrow> dashboard \<Rightarrow> dashboard_event list \<Rightarrow> dashboard" where
  "dashboard_run opts d evs = foldl (dashboard_step opts) d evs"

text \<open>
  The push hook holds at most one socket or timeout, and none once it has given up; the
  pull hook has its interval exactly when it is enabled; the supervisor is in order
  when both hold, the pull hook is enabled exactly in polling mode, and a push hook
  that has given up has been replaced by polling.
\<close>

definition single_push :: "ws_hook \<Rightarrow> bool" where
  "single_push w =
     (length (sockets w) + length (timers w) \<le> 1
      \<and> (\<not> max_error w \<or> sockets w = [] \<and> timers w = []))"

definition poll_settled :: "bool \<Rightarrow> poll_hook \<Rightarrow> bool" where
  "poll_settled en p =
     (enabled p = en
      \<and> (if en then intervals p = [next_interval p - 1] \<and> intervalRef p = Some (next_interval p - 1)
                      \<and> 0 < next_interval p
          else intervals p = [] \<and> intervalRef p = None))"

definition supervised :: "dashboard \<Rightarrow> bool" where
  "supervised d =
     (single_push (websocket d) \<and> poll_settled (mode d = Polling) (polling d)
      \<and> (\<not> max_error (websocket d) \<or> mode d = Polling))"

text \<open>Options with a single retry, and a snapshot, for the scenarios.\<close>

definition single_retry_options :: ws_options where
  "single_retry_options = \<lparr>url_valid = True, reconnectInterval = 3000, maxReconnectAttempts = 1\<rparr>"

definition sample_snapshot :: DashboardData where
  "sample_snapshot =
     \<lparr>lineChartData = [(''2025-11-03T00:00:00.000Z'', 42)], barChartData = [], pieChartData = [],
      totalEvents = 1, lastUpdated = ''2025-11-03T00:00:00.200Z''\<rparr>"


section \<open>Properties of the metrics store\<close>

subsection \<open>Retention cleanup\<close>

lemma delete_before_kept:
  "fst (delete_before cutoff rs) = filter (\<lambda>r. \<not> row_timestamp r < cutoff) rs"
  by (induction rs) (auto simp: Let_def split: prod.splits)

lemma delete_before_changes:
  "snd (delete_before cutoff rs) = length (filter (\<lambda>r. row_timestamp r < cutoff) rs)"
  by (induction rs) (auto simp: Let_def split: prod.splits)

lemma delete_before_eq:
  "delete_before cutoff rs =
     (filter (\<lambda>r. \<not> row_timestamp r < cutoff) rs,
      length (filter (\<lambda>r. row_timestamp r < cutoff) rs))"
  by (simp add: prod_eq_iff delete_before_kept delete_before_changes)

text \<open>
  Claim C8.  Whenever the bound of \<open>cleanupOldData\<close> can be computed, the call removes
  exactly the rows whose timestamp is below the bound, keeps every other row as it is and
  in its place, returns the number of rows removed, and a second call with the same bound
  removes nothing.
\<close>

theorem cleanupOldData_removes_exactly_older:
  assumes "cutoffTime s2n now hoursToKeep = Inr cutoff"
  shows "\<exists>d' n. cleanupOldData s2n now hoursToKeep d = Inr (d', n)
           \<and> metrics d' = filter (\<lambda>r. \<not> row_timestamp r < cutoff) (metrics d)
           \<and> n = length (filter (\<lambda>r. row_timestamp r < cutoff) (metrics d))
           \<and> length (metrics d) = length (metrics d') + n
           \<and> sqlite_sequence d' = sqlite_sequence d
           \<and> cleanupOldData s2n now hoursToKeep d' = Inr (d', 0)"
proof -
  let ?old = "\<lambda>r. row_timestamp r < cutoff"
  let ?d' = "d\<lparr>metrics := filter (\<lambda>r. \<not> ?old r) (metrics d)\<rparr>"
  have first: "cleanupOldData s2n now hoursToKeep d = Inr (?d', length (filter ?old (metrics d)))"
    using assms by (simp add: cleanupOldData_def delete_before_eq)
  have "filter ?old (filter (\<lambda>r. \<not> ?old r) (metrics d)) = []"
    by (simp add: filter_empty_conv)
  then have second: "cleanupOldData s2n now hoursToKeep ?d' = Inr (?d', 0)"
    using assms by (simp add: cleanupOldData_def delete_before_eq)
  have len: "length (metrics d) = length (metrics ?d') + length (filter ?old (metrics d))"
    using sum_length_filter_compl [of ?old "metrics d"] by simp
  show ?thesis
    using first second len by (intro exI [of _ ?d'] exI [of _ "length (filter ?old (metrics d))"]) simp
qed

theorem cleanupOldData_scenario_witness:
  "cutoffTime (\<lambda>s. NaN) 1762128000000 (JNumber (Num 24)) = Inr ''2025-11-02T00:00:00.000Z''
   \<and> cleanupOldData (\<lambda>s. NaN) 1762128000000 (JNumber (Num 24)) scenario4_db
       = Inr (scenario4_db\<lparr>metrics := [metrics scenario4_db ! 1]\<rparr>, 1)
   \<and> cleanupOldData (\<lambda>s. NaN) 1762128000000 (JNumber (Num 24))
         (scenario4_db\<lparr>metrics := [metrics scenario4_db ! 1]\<rparr>)
       = Inr (scenario4_db\<lparr>metrics := [metrics scenario4_db ! 1]\<rparr>, 0)"
proof -
  have h: "cutoffTime (\<lambda>s. NaN) 1762128000000 (JNumber (Num 24)) = Inr ''2025-11-02T00:00:00.000Z''"
    by code_simp
  have old: "filter (\<lambda>r. row_timestamp r < ''2025-11-02T00:00:00.000Z'') (metrics scenario4_db)
               = [metrics scenario4_db ! 0]"
    by code_simp
  have new: "filter (\<lambda>r. \<not> row_timestamp r < ''2025-11-02T00:00:00.000Z'') (metrics scenario4_db)
               = [metrics scenario4_db ! 1]"
    by code_simp
  from cleanupOldData_removes_exactly_older [OF h, of scenario4_db]
  obtain d' n where r: "cleanupOldData (\<lambda>s. NaN) 1762128000000 (JNumber (Num 24)) scenario4_db = Inr (d', n)"
    and m: "metrics d' = [metrics scenario4_db ! 1]" and n: "n = 1"
    and s: "sqlite_sequence d' = sqlite_sequence scenario4_db"
    and again: "cleanupOldData (\<lambda>s. NaN) 1762128000000 (JNumber (Num 24)) d' = Inr (d', 0)"
    unfolding old new by auto
  have "d' = scenario4_db\<lparr>metrics := [metrics scenario4_db ! 1]\<rparr>"
    using m s by simp
  then show ?thesis using h r n again by simp
qed

subsection \<open>Aggregates by category\<close>



lemma add_to_group_keys:
  "set (map fst (add_to_group c v g)) = insert c (set (map fst g))"
  by (induction c v g rule: add_to_group.induct) auto

lemma add_to_group_sorted:
  "sorted_wrt (<) (map fst g) \<Longrightarrow> sorted_wrt (<) (map fst (add_to_group c v g))"
proof (induction c v g rule: add_to_group.induct)
  case (1 c v)
  then show ?case by simp
next
  case (2 c v k s g)
  show ?case
  proof (cases "c = k")
    case True
    with 2 show ?thesis by simp
  next
    case False
    note neq = this
    show ?thesis
    proof (cases "c < k")
      case True
      with 2 neq show ?thesis by (auto intro: less_trans)
    next
      case False
      with neq have "k < c" by simp
      moreover have "sorted_wrt (<) (map fst (add_to_group c v g))"
        using 2 neq False by simp
      moreover have "\<forall>x \<in> set (map fst (add_to_group c v g)). k < x"
        using 2 \<open>k < c\<close> by (auto simp: add_to_group_keys simp del: set_map)
      ultimately show ?thesis using neq False by simp
    qed
  qed
qed

lemma map_of_sorted_less:
  fixes g :: "(string \<times> real list) list"
  shows "\<forall>k \<in> set (map fst g). c < k \<Longrightarrow> map_of g c = None"
  by (induction g) (auto simp: map_of_eq_None_iff)

lemma add_to_group_lookup:
  "sorted_wrt (<) (map fst g) \<Longrightarrow>
   map_of (add_to_group c v g) k =
     (if k = c then Some ((case map_of g c of None \<Rightarrow> [] | Some vs \<Rightarrow> vs) @ [v]) else map_of g k)"
proof (induction c v g rule: add_to_group.induct)
  case (1 c v)
  then show ?case by simp
next
  case (2 c v k' s g)
  show ?case
  proof (cases "c = k'")
    case True
    then show ?thesis by simp
  next
    case neq: False
    show ?thesis
    proof (cases "c < k'")
      case True
      have "map_of ((k', s) # g) c = None"
        using "2.prems" True by (intro map_of_sorted_less) (auto intro: less_trans)
      then show ?thesis using neq True by auto
    next
      case False
      then show ?thesis using 2 neq by auto
    qed
  qed
qed

lemma group_rows_sorted:
  "sorted_wrt (<) (map fst g) \<Longrightarrow> sorted_wrt (<) (map fst (group_rows t rs g))"
  by (induction t rs g rule: group_rows.induct) (auto simp: add_to_group_sorted split: option.splits)

lemma group_rows_lookup:
  "sorted_wrt (<) (map fst g) \<Longrightarrow>
   map_of (group_rows t rs g) c =
     (if filter (matches t c) rs = [] then map_of g c
      else Some ((case map_of g c of None \<Rightarrow> [] | Some vs \<Rightarrow> vs)
                 @ map row_value (filter (matches t c) rs)))"
proof (induction t rs g rule: group_rows.induct)
  case (1 t g)
  then show ?case by simp
next
  case (2 t r rs g)
  show ?case
  proof (cases "row_category r")
    case None
    then have "\<not> matches t c r" by (simp add: matches_def)
    with 2 None show ?thesis by simp
  next
    case (Some c')
    show ?thesis
    proof (cases "row_metricType r = t")
      case False
      then have "\<not> matches t c r" by (simp add: matches_def)
      with 2 Some False show ?thesis by simp
    next
      case True
      let ?g = "add_to_group c' (row_value r) g"
      have s: "sorted_wrt (<) (map fst ?g)" using "2.prems" by (rule add_to_group_sorted)
      have step: "group_rows t (r # rs) g = group_rows t rs ?g" using Some True by simp
      have ih: "map_of (group_rows t rs ?g) c =
          (if filter (matches t c) rs = [] then map_of ?g c
           else Some ((case map_of ?g c of None \<Rightarrow> [] | Some vs \<Rightarrow> vs)
                 @ map row_value (filter (matches t c) rs)))"
        using "2.IH" s Some True by simp
      have m: "matches t c r \<longleftrightarrow> c = c'" using Some True by (auto simp: matches_def)
      show ?thesis
        unfolding step ih using m add_to_group_lookup [OF "2.prems", of c' "row_value r" c]
        by (auto split: option.splits)
    qed
  qed
qed

lemma group_rows_append:
  "group_rows t (xs @ ys) g = group_rows t ys (group_rows t xs g)"
  by (induction t xs g rule: group_rows.induct) auto

lemma group_sum_aggregate: "aggregate_with summation t d (group_sum summation t (metrics d))"
proof -
  let ?G = "group_rows t (metrics d) []"
  let ?res = "group_sum summation t (metrics d)"
  have keys: "map fst ?res = map fst ?G"
    by (simp add: group_sum_def comp_def case_prod_unfold)
  have srt: "sorted_wrt (<) (map fst ?res)"
    unfolding keys by (rule group_rows_sorted) simp
  then have dist: "distinct (map fst ?res)" by (simp add: strict_sorted_iff)
  have look: "map_of ?res c = map_option summation (map_of ?G c)" for c
    by (simp add: group_sum_def map_of_map)
  have "(c, s) \<in> set ?res \<longleftrightarrow>
          filter (matches t c) (metrics d) \<noteq> []
          \<and> s = summation (map row_value (filter (matches t c) (metrics d)))" for c s
  proof -
    have "(c, s) \<in> set ?res \<longleftrightarrow> map_of ?res c = Some s"
      using dist by simp
    also have "\<dots> \<longleftrightarrow> filter (matches t c) (metrics d) \<noteq> []
          \<and> s = summation (map row_value (filter (matches t c) (metrics d)))"
      unfolding look using group_rows_lookup [of "[]" t "metrics d" c] by auto
    finally show ?thesis .
  qed
  with srt show ?thesis unfolding aggregate_with_def by blast
qed

lemma group_sum_uncategorised:
  "row_category r = None \<Longrightarrow> group_sum summation t (rs @ [r]) = group_sum summation t rs"
  by (simp add: group_sum_def group_rows_append)

lemma abs_sum_sublist:
  fixes f :: "'a \<Rightarrow> real"
  assumes "\<And>x. P x \<Longrightarrow> Q x"
  shows "(\<Sum>x\<leftarrow>filter P xs. \<bar>f x\<bar>) \<le> (\<Sum>x\<leftarrow>filter Q xs. \<bar>f x\<bar>)"
proof (induction xs)
  case Nil
  then show ?case by simp
next
  case (Cons x xs)
  have "0 \<le> (\<Sum>x\<leftarrow>filter Q xs. \<bar>f x\<bar>)" by (rule sum_list_nonneg) auto
  then show ?case using Cons assms [of x] by auto
qed

lemma exact_group:
  assumes "exact_on_small_integers summation" "small_integers t d"
  shows "summation (map row_value (filter (matches t c) (metrics d)))
       = sum_list (map row_value (filter (matches t c) (metrics d)))"
proof -
  let ?vs = "map row_value (filter (matches t c) (metrics d))"
  have ints: "\<forall>v \<in> set ?vs. v \<in> \<int>"
    using assms(2) by (auto simp: small_integers_def matches_def)
  have "(\<Sum>v\<leftarrow>?vs. \<bar>v\<bar>) = (\<Sum>r\<leftarrow>filter (matches t c) (metrics d). \<bar>row_value r\<bar>)"
    by (simp add: comp_def)
  also have "\<dots> \<le> (\<Sum>r\<leftarrow>filter (\<lambda>r. row_metricType r = t) (metrics d). \<bar>row_value r\<bar>)"
    by (rule abs_sum_sublist) (simp add: matches_def)
  also have "\<dots> \<le> 2 ^ 53" using assms(2) by (simp add: small_integers_def)
  finally have "(\<Sum>v\<leftarrow>?vs. \<bar>v\<bar>) \<le> 2 ^ 53" .
  with ints assms(1) show ?thesis unfolding exact_on_small_integers_def by blast
qed

lemma exact_aggregate:
  assumes "exact_on_small_integers summation" "small_integers t d"
  shows "aggregate_of t d (group_sum summation t (metrics d))"
  using group_sum_aggregate [of summation t d] exact_group [OF assms]
  by (simp add: aggregate_of_def aggregate_with_def)

lemma rounding_sum_exact: "exact_on_small_integers rounding_sum"
proof -
  have "rounding_sum vs = sum_list vs" if "(\<Sum>v\<leftarrow>vs. \<bar>v\<bar>) \<le> 2 ^ 53" for vs
  proof -
    have "vs \<noteq> [9007199254740992, 1]" using that by auto
    then show ?thesis by (simp add: rounding_sum_def)
  qed
  then show ?thesis by (simp add: exact_on_small_integers_def)
qed

lemma aggregates_db_small: "small_integers Bar aggregates_db" "small_integers Pie aggregates_db"
  by (simp_all add: small_integers_def aggregates_db_def)

text \<open>
  Claim C10.  The bar and the pie query each return one entry per category that some
  stored point of that type carries, in ascending order of the category, with the
  store's summation of the values of exactly those points.  The summation adds doubles:
  it is the sum of the values when it is exact on small integers and the values of the
  type are small integers, and it can differ from the sum otherwise, as for \<open>2^53\<close> and 1.
  A point stored without a category changes neither aggregate and still adds one to
  \<open>getTotalEvents\<close> and to the snapshot's \<open>totalEvents\<close>.
\<close>

theorem aggregates_sum_per_category:
  "aggregate_with summation Bar d (getBarChartData summation d)
   \<and> aggregate_with summation Pie d (getPieChartData summation d)
   \<and> (exact_on_small_integers summation \<and> small_integers Bar d \<longrightarrow>
        aggregate_of Bar d (getBarChartData summation d))
   \<and> (exact_on_small_integers summation \<and> small_integers Pie d \<longrightarrow>
        aggregate_of Pie d (getPieChartData summation d))
   \<and> (insertMetric m d = Inr (d', i) \<and> or_null (category m) = None \<longrightarrow>
        getBarChartData summation d' = getBarChartData summation d
        \<and> getPieChartData summation d' = getPieChartData summation d
        \<and> getTotalEvents d' = getTotalEvents d + 1
        \<and> totalEvents (getDashboardData summation now d') = totalEvents (getDashboardData summation now d) + 1)"
proof -
  have agg: "aggregate_with summation Bar d (getBarChartData summation d)"
    "aggregate_with summation Pie d (getPieChartData summation d)"
    by (simp_all add: getBarChartData_def getPieChartData_def group_sum_aggregate)
  have exact: "aggregate_of t d (group_sum summation t (metrics d))"
    if "exact_on_small_integers summation \<and> small_integers t d" for t
    using that by (intro exact_aggregate) simp_all
  have ins: "getBarChartData summation d' = getBarChartData summation d
        \<and> getPieChartData summation d' = getPieChartData summation d
        \<and> getTotalEvents d' = getTotalEvents d + 1"
    if "insertMetric m d = Inr (d', i)" "or_null (category m) = None"
    using that
    by (auto simp: getBarChartData_def getPieChartData_def getTotalEvents_def insertMetric_def
        insert_run_def Let_def group_sum_uncategorised split: jsnum.splits)
  then have snap: "totalEvents (getDashboardData summation now d')
      = totalEvents (getDashboardData summation now d) + 1"
    if "insertMetric m d = Inr (d', i)" "or_null (category m) = None"
    using that by (simp add: getDashboardData_def)
  show ?thesis
    using agg exact [of Bar] exact [of Pie] ins snap
    by (simp add: getBarChartData_def getPieChartData_def)
qed

theorem rounded_sum_counterexample:
  "getBarChartData rounding_sum rounding_db = [(''Category A'', 9007199254740992)]
   \<and> sum_list (map row_value (filter (matches Bar ''Category A'') (metrics rounding_db)))
       = 9007199254740993
   \<and> \<not> aggregate_of Bar rounding_db (getBarChartData rounding_sum rounding_db)"
proof -
  have g: "group_rows Bar (metrics rounding_db) [] = [(''Category A'', [9007199254740992, 1])]"
    by (simp add: rounding_db_def)
  have r: "getBarChartData rounding_sum rounding_db = [(''Category A'', 9007199254740992)]"
    unfolding getBarChartData_def group_sum_def g by (simp add: rounding_sum_def)
  have s: "sum_list (map row_value (filter (matches Bar ''Category A'') (metrics rounding_db)))
       = 9007199254740993"
    by (simp add: rounding_db_def matches_def)
  have "\<not> aggregate_of Bar rounding_db [(''Category A'', 9007199254740992)]"
  proof
    assume "aggregate_of Bar rounding_db [(''Category A'', 9007199254740992)]"
    then have "\<forall>c s. (c, s) \<in> set [(''Category A'', 9007199254740992)] \<longleftrightarrow>
             filter (matches Bar c) (metrics rounding_db) \<noteq> []
             \<and> s = sum_list (map row_value (filter (matches Bar c) (metrics rounding_db)))"
      unfolding aggregate_of_def aggregate_with_def by (rule conjunct2)
    then have "(''Category A'', 9007199254740992) \<in> set [(''Category A'', 9007199254740992::real)] \<longleftrightarrow>
             filter (matches Bar ''Category A'') (metrics rounding_db) \<noteq> []
             \<and> (9007199254740992::real)
               = sum_list (map row_value (filter (matches Bar ''Category A'') (metrics rounding_db)))"
      by blast
    then show False unfolding s by simp
  qed
  with r s show ?thesis by simp
qed

theorem aggregates_witness:
  "exact_on_small_integers rounding_sum
   \<and> small_integers Bar aggregates_db \<and> small_integers Pie aggregates_db
   \<and> insertMetric uncategorised_bar aggregates_db
     = Inr (aggregates_db\<lparr>metrics := metrics aggregates_db @
              [\<lparr>row_id = 6, row_timestamp = ''2025-11-03T00:00:00.400Z'', row_metricType = Bar,
                row_category = None, row_value = 99, row_metadata = None\<rparr>],
            sqlite_sequence := 6\<rparr>, 6)
   \<and> or_null (category uncategorised_bar) = None
   \<and> getBarChartData rounding_sum aggregates_db = [(''Category A'', 30), (''Category B'', 5)]
   \<and> getPieChartData rounding_sum aggregates_db = [(''Category A'', 7)]
   \<and> aggregate_of Bar aggregates_db (getBarChartData rounding_sum aggregates_db)
   \<and> aggregate_of Pie aggregates_db (getPieChartData rounding_sum aggregates_db)
   \<and> getBarChartData rounding_sum (aggregates_db\<lparr>metrics := metrics aggregates_db @
              [\<lparr>row_id = 6, row_timestamp = ''2025-11-03T00:00:00.400Z'', row_metricType = Bar,
                row_category = None, row_value = 99, row_metadata = None\<rparr>],
            sqlite_sequence := 6\<rparr>)
       = [(''Category A'', 30), (''Category B'', 5)]
   \<and> getTotalEvents aggregates_db = 5
   \<and> getTotalEvents (aggregates_db\<lparr>metrics := metrics aggregates_db @
              [\<lparr>row_id = 6, row_timestamp = ''2025-11-03T00:00:00.400Z'', row_metricType = Bar,
                row_category = None, row_value = 99, row_metadata = None\<rparr>],
            sqlite_sequence := 6\<rparr>) = 6"
proof -
  let ?d' = "aggregates_db\<lparr>metrics := metrics aggregates_db @
              [\<lparr>row_id = 6, row_timestamp = ''2025-11-03T00:00:00.400Z'', row_metricType = Bar,
                row_category = None, row_value = 99, row_metadata = None\<rparr>],
            sqlite_sequence := 6\<rparr>"
  have i: "insertMetric uncategorised_bar aggregates_db = Inr (?d', 6)"
    by (simp add: insertMetric_def insert_run_def uncategorised_bar_def aggregates_db_def or_null_def)
  have h: "or_null (category uncategorised_bar) = None"
    by (simp add: or_null_def uncategorised_bar_def)
  have gb: "group_rows Bar (metrics aggregates_db) []
      = [(''Category A'', [10, 20]), (''Category B'', [5])]"
    by (simp add: aggregates_db_def)
  have gp: "group_rows Pie (metrics aggregates_db) [] = [(''Category A'', [7])]"
    by (simp add: aggregates_db_def)
  have b: "getBarChartData rounding_sum aggregates_db = [(''Category A'', 30), (''Category B'', 5)]"
    unfolding getBarChartData_def group_sum_def gb by (simp add: rounding_sum_def)
  have p: "getPieChartData rounding_sum aggregates_db = [(''Category A'', 7)]"
    unfolding getPieChartData_def group_sum_def gp by (simp add: rounding_sum_def)
  have t: "getTotalEvents aggregates_db = 5" by (simp add: getTotalEvents_def aggregates_db_def)
  note main = aggregates_sum_per_category [where summation = rounding_sum and d = aggregates_db
        and m = uncategorised_bar and d' = ?d' and i = 6 and now = 0]
  have e: "exact_on_small_integers rounding_sum" by (rule rounding_sum_exact)
  have ab: "aggregate_of Bar aggregates_db (getBarChartData rounding_sum aggregates_db)"
    using main e aggregates_db_small(1) by blast
  have ap: "aggregate_of Pie aggregates_db (getPieChartData rounding_sum aggregates_db)"
    using main e aggregates_db_small(2) by blast
  have after: "getBarChartData rounding_sum ?d' = getBarChartData rounding_sum aggregates_db
      \<and> getTotalEvents ?d' = getTotalEvents aggregates_db + 1"
    using main i h by blast
  show ?thesis
    unfolding conj_assoc
    using e aggregates_db_small i h b p ab ap after t by (simp only: simp_thms) 
qed



subsection \<open>Batch inserts\<close>

lemma insert_run_count:
  "insert_run m d = Inr (d', i) \<Longrightarrow> length (metrics d') = Suc (length (metrics d))"
  by (auto simp: insert_run_def Let_def split: jsnum.splits)

lemma insert_run_ok: "(\<exists>r. insert_run m d = Inr r) \<longleftrightarrow> mvalue m \<noteq> NaN"
  by (auto simp: insert_run_def Let_def split: jsnum.splits)

lemma insert_run_error: "insert_run m d = Inl e \<Longrightarrow> e = SqliteError"
  by (auto simp: insert_run_def Let_def split: jsnum.splits)

lemma insertMany_count:
  "insertMany ms d = Inr d' \<Longrightarrow> length (metrics d') = length (metrics d) + length ms"
proof (induction ms arbitrary: d)
  case Nil
  then show ?case by simp
next
  case (Cons m ms)
  then show ?case
    by (auto split: sum.splits dest!: insert_run_count)
qed

lemma insertMany_error: "insertMany ms d = Inl e \<Longrightarrow> e = SqliteError"
  by (induction ms arbitrary: d) (auto split: sum.splits dest: insert_run_error)

lemma insertMany_ok: "(\<exists>d'. insertMany ms d = Inr d') \<longleftrightarrow> applied ms"
proof (induction ms arbitrary: d)
  case Nil
  then show ?case by (simp add: applied_def)
next
  case (Cons m ms)
  show ?case
  proof (cases "insert_run m d")
    case (Inl e)
    then have "mvalue m = NaN" using insert_run_ok [of m d] by auto
    with Inl show ?thesis by (simp add: applied_def)
  next
    case (Inr r)
    then have "mvalue m \<noteq> NaN" using insert_run_ok [of m d] by auto
    with Inr Cons.IH [of "fst r"] show ?thesis
      by (cases r) (simp add: applied_def)
  qed
qed

lemma insertMetricsBatch_cases:
  "(applied ms \<and> fst (insertMetricsBatch ms d) = Inr (length ms)
      \<and> getTotalEvents (snd (insertMetricsBatch ms d)) = getTotalEvents d + length ms)
   \<or> (\<not> applied ms \<and> fst (insertMetricsBatch ms d) = Inl SqliteError
      \<and> snd (insertMetricsBatch ms d) = d)"
proof (cases "insertMany ms d")
  case (Inl e)
  then have "\<not> applied ms" using insertMany_ok [of ms d] by auto
  moreover have "e = SqliteError" using Inl by (rule insertMany_error)
  ultimately show ?thesis using Inl by (simp add: insertMetricsBatch_def transaction_def)
next
  case (Inr d')
  then have "applied ms" using insertMany_ok [of ms d] by auto
  with Inr insertMany_count [OF Inr] show ?thesis
    by (simp add: insertMetricsBatch_def transaction_def getTotalEvents_def)
qed

lemma insert_batches_total:
  "getTotalEvents (insert_batches bs d) = getTotalEvents d + sum_list (map length (filter applied bs))"
proof (induction bs arbitrary: d)
  case Nil
  then show ?case by simp
next
  case (Cons ms bs)
  from insertMetricsBatch_cases [of ms d] Cons.IH [of "snd (insertMetricsBatch ms d)"]
  show ?case by auto
qed

text \<open>
  Claim C5.  A batch insert is one transaction: a call that returns has added every
  point of the batch, so \<open>getTotalEvents\<close> grows by the size of the batch, and a call
  that throws has added none and leaves the store as it was; the count is never a
  partial one.  After any run of batch inserts the count is the count before plus the
  sizes of the batches that were applied, which is the sum of all sizes when every call
  returns.
\<close>

theorem insertMetricsBatch_all_or_nothing:
  "(applied ms \<longrightarrow>
      fst (insertMetricsBatch ms d) = Inr (length ms)
      \<and> getTotalEvents (snd (insertMetricsBatch ms d)) = getTotalEvents d + length ms)
   \<and> (\<not> applied ms \<longrightarrow>
      fst (insertMetricsBatch ms d) = Inl SqliteError \<and> snd (insertMetricsBatch ms d) = d)
   \<and> getTotalEvents (insert_batches bs d)
       = getTotalEvents d + sum_list (map length (filter applied bs))
   \<and> ((\<forall>b \<in> set bs. applied b) \<longrightarrow>
       getTotalEvents (insert_batches bs d) = getTotalEvents d + sum_list (map length bs))"
proof -
  have "filter applied bs = bs" if "\<forall>b \<in> set bs. applied b"
    using that by (simp add: filter_id_conv)
  then show ?thesis
    using insertMetricsBatch_cases [of ms d] insert_batches_total [of bs d] by auto
qed

lemma realtime_metrics_applied: "applied (realtime_metrics rnd now)"
  by (auto simp: applied_def realtime_metrics_def scaled_def Let_def)

lemma realtime_metrics_length: "length (realtime_metrics rnd now) = 9"
  by (simp add: realtime_metrics_def categories_def Let_def)

theorem insertMetricsBatch_scenario_witness:
  "applied (realtime_metrics (\<lambda>k. 1 / 2) 1762128000400)
   \<and> fst (insertMetricsBatch (realtime_metrics (\<lambda>k. 1 / 2) 1762128000400) aggregates_db) = Inr 9
   \<and> getTotalEvents aggregates_db = 5
   \<and> getTotalEvents (snd (insertMetricsBatch (realtime_metrics (\<lambda>k. 1 / 2) 1762128000400) aggregates_db)) = 14
   \<and> \<not> applied broken_batch
   \<and> fst (insertMetricsBatch broken_batch aggregates_db) = Inl SqliteError
   \<and> snd (insertMetricsBatch broken_batch aggregates_db) = aggregates_db
   \<and> getTotalEvents (insert_batches
         [realtime_metrics (\<lambda>k. 1 / 2) 1762128000400, realtime_metrics (\<lambda>k. 1 / 4) 1762128000600]
         aggregates_db) = 23"
proof -
  let ?b1 = "realtime_metrics (\<lambda>k. 1 / 2) 1762128000400"
  let ?b2 = "realtime_metrics (\<lambda>k. 1 / 4) 1762128000600"
  have a: "applied ?b1" "applied ?b2" by (rule realtime_metrics_applied)+
  have l: "length ?b1 = 9" "length ?b2 = 9" by (rule realtime_metrics_length)+
  have n: "\<not> applied broken_batch" by (simp add: applied_def broken_batch_def)
  have t: "getTotalEvents aggregates_db = 5" by (simp add: getTotalEvents_def aggregates_db_def)
  have all: "\<forall>b \<in> set [?b1, ?b2]. applied b" using a by simp
  show ?thesis
    using insertMetricsBatch_all_or_nothing [of ?b1 aggregates_db "[?b1, ?b2]"]
      insertMetricsBatch_all_or_nothing [of broken_batch aggregates_db "[]"]
      a l n t all by simp
qed


subsection \<open>The line series\<close>

lemma getLineChartData_eq:
  "getLineChartData limit d =
     map (\<lambda>r. (row_timestamp r, row_value r))
       (drop (length (line_rows d) - limit) (sort_key row_timestamp (line_rows d)))"
  by (simp add: getLineChartData_def Let_def rev_map rev_take)

lemma getLineChartData_sorted: "sorted (map fst (getLineChartData limit d))"
proof -
  have "sorted (map row_timestamp (sort_key row_timestamp (line_rows d)))" by simp
  then have "sorted (drop (length (line_rows d) - limit) (map row_timestamp (sort_key row_timestamp (line_rows d))))"
    by (rule sorted_wrt_drop)
  then show ?thesis by (simp add: getLineChartData_eq drop_map comp_def)
qed

lemma getLineChartData_length:
  "length (getLineChartData limit d) = min limit (length (line_rows d))"
  by (simp add: getLineChartData_eq)

lemma sorted_split_le:
  assumes "sorted (map f xs)" "a \<in> set (take n xs)" "b \<in> set (drop n xs)"
  shows "f a \<le> f b"
proof -
  have "sorted (map f (take n xs) @ map f (drop n xs))"
    using assms(1) by (simp flip: map_append)
  then show ?thesis using assms(2,3) by (auto simp: sorted_append)
qed

lemma getLineChartData_most_recent:
  "\<exists>older kept. mset (older @ kept) = mset (line_rows d)
     \<and> getLineChartData limit d = map (\<lambda>r. (row_timestamp r, row_value r)) kept
     \<and> (\<forall>a \<in> set older. \<forall>b \<in> set kept. row_timestamp a \<le> row_timestamp b)"
proof -
  let ?S = "sort_key row_timestamp (line_rows d)"
  let ?n = "length (line_rows d) - limit"
  have "mset (take ?n ?S @ drop ?n ?S) = mset (line_rows d)" by simp
  moreover have "\<forall>a \<in> set (take ?n ?S). \<forall>b \<in> set (drop ?n ?S). row_timestamp a \<le> row_timestamp b"
    using sorted_split_le [of row_timestamp ?S] by auto
  ultimately show ?thesis using getLineChartData_eq [of limit d] by blast
qed

lemma sorted_le_last:
  fixes xs :: "string list"
  shows "sorted xs \<Longrightarrow> x \<in> set xs \<Longrightarrow> x \<le> last xs"
  by (induction xs) auto

lemma sorted_last_Max:
  fixes xs :: "string list"
  assumes "sorted xs" "xs \<noteq> []"
  shows "last xs = Max (set xs)"
proof -
  have "\<forall>x \<in> set xs. x \<le> last xs"
    using assms(1) by (blast intro: sorted_le_last)
  then show ?thesis using assms(2) by (intro Max_eqI [symmetric]) auto
qed

lemma getLineChartData_last:
  assumes "0 < limit" "line_rows d \<noteq> []"
  shows "fst (last (getLineChartData limit d)) = Max (row_timestamp ` set (line_rows d))"
proof -
  let ?S = "sort_key row_timestamp (line_rows d)"
  let ?n = "length (line_rows d) - limit"
  have len: "0 < length ?S" using assms(2) by simp
  then have S: "?S \<noteq> []" by (simp del: length_sort)
  have "?n < length ?S" using assms(1) len by simp
  then have ne: "drop ?n ?S \<noteq> []" by (simp del: length_sort)
  have "fst (last (getLineChartData limit d)) = row_timestamp (last (drop ?n ?S))"
    using ne by (simp add: getLineChartData_eq last_map)
  also have "\<dots> = row_timestamp (last ?S)" using ne by simp
  also have "\<dots> = last (map row_timestamp ?S)" using S by (simp add: last_map)
  also have "\<dots> = Max (set (map row_timestamp ?S))"
    by (rule sorted_last_Max) (use S in simp_all)
  finally show ?thesis by simp
qed


lemma insert_run_row:
  assumes "insert_run m d = Inr (d', i)"
  shows "\<exists>r. metrics d' = metrics d @ [r] \<and> row_timestamp r = timestamp m
           \<and> row_metricType r = metricType m"
  using assms by (auto simp: insert_run_def Let_def split: jsnum.splits)

lemma insertMany_rows:
  "insertMany ms d = Inr d' \<Longrightarrow>
   map (\<lambda>r. (row_timestamp r, row_metricType r)) (metrics d')
     = map (\<lambda>r. (row_timestamp r, row_metricType r)) (metrics d)
       @ map (\<lambda>m. (timestamp m, metricType m)) ms"
proof (induction ms arbitrary: d)
  case Nil
  then show ?case by simp
next
  case (Cons m ms)
  from Cons.prems obtain d1 i where step: "insert_run m d = Inr (d1, i)"
    and rest: "insertMany ms d1 = Inr d'"
    by (auto split: sum.splits)
  from insert_run_row [OF step] Cons.IH [OF rest] show ?case by auto
qed

lemma line_rows_stamps:
  "map row_timestamp (line_rows d)
     = map fst (filter (\<lambda>p. snd p = Line) (map (\<lambda>r. (row_timestamp r, row_metricType r)) (metrics d)))"
  by (simp add: line_rows_def filter_map comp_def)

lemma all_stamps:
  "map row_timestamp (metrics d) = map fst (map (\<lambda>r. (row_timestamp r, row_metricType r)) (metrics d))"
  by (simp add: comp_def)

lemma seed_point_ok:
  assumes "0 \<le> now" "now \<le> 8640000000000000" "i \<le> 60"
  shows "seed_point rnd now (Num 60000) i k =
     Inr \<lparr>timestamp = iso_format (now - int i * 60000), metricType = Line, category = None,
          mvalue = scaled rnd k 100 20, metadata = None\<rparr>"
proof -
  let ?x = "real_of_int (now - int i * 60000)"
  have eq: "real_of_int now - real i * 60000 = ?x" by simp
  have "- 3600000 \<le> now - int i * 60000" "now - int i * 60000 \<le> 8640000000000000"
    using assms by auto
  then have "\<bar>now - int i * 60000\<bar> \<le> 8640000000000000" by simp
  then have "\<bar>?x\<bar> \<le> 8640000000000000" 
    by (metis of_int_abs of_int_le_iff of_int_numeral)
  then have "TimeClip (Num ?x) = Some (now - int i * 60000)"
    unfolding TimeClip_def by (simp del: of_int_diff of_int_mult)
  then show ?thesis
    unfolding seed_point_def js_mul.simps js_sub.simps eq
    by (simp add: Date_toISOString_def)
qed

lemma seed_lines_ok:
  assumes "0 \<le> now" "now \<le> 8640000000000000"
  shows "i \<le> 60 \<Longrightarrow>
    seed_lines rnd now (Num 60000) i k = Inr (map (\<lambda>j. line_metric rnd now (i - j) (k + j)) [0..<Suc i])"
proof (induction i arbitrary: k)
  case 0
  then show ?case using seed_point_ok [OF assms, of 0 rnd k] by (simp add: line_metric_def)
next
  case (Suc i)
  have p: "seed_point rnd now (Num 60000) (Suc i) k = Inr (line_metric rnd now (Suc i) k)"
    using seed_point_ok [OF assms Suc.prems, of rnd k] by (simp add: line_metric_def)
  have ih: "seed_lines rnd now (Num 60000) i (Suc k)
      = Inr (map (\<lambda>j. line_metric rnd now (i - j) (Suc k + j)) [0..<Suc i])"
    using Suc.IH [of "Suc k"] Suc.prems by simp
  have "map (\<lambda>j. line_metric rnd now (Suc i - j) (k + j)) [0..<Suc (Suc i)]
      = line_metric rnd now (Suc i) k # map (\<lambda>j. line_metric rnd now (i - j) (Suc k + j)) [0..<Suc i]"
    by (subst map_upt_Suc) simp
  then show ?case using p ih by (simp del: upt_Suc)
qed


lemma seed_categories_facts:
  "length (seed_categories rnd now) = 8"
  "m \<in> set (seed_categories rnd now) \<Longrightarrow>
     metricType m \<noteq> Line \<and> timestamp m = iso_format now \<and> mvalue m \<noteq> NaN"
  by (auto simp: seed_categories_def categories_def scaled_def)

lemma seed_batch:
  assumes "0 \<le> now" "now \<le> 8640000000000000"
  shows "seedHistoricalData s2n rnd now (JNumber (Num 1)) d =
     insertMetricsBatch (map (\<lambda>j. line_metric rnd now (60 - j) (0 + j)) [0..<Suc 60]
                         @ seed_categories rnd now) d"
  using seed_lines_ok [OF assms, of 60 rnd 0]
  by (simp add: seedHistoricalData_def del: upt_Suc)

lemma seeded_store:
  assumes range: "0 \<le> now" "now \<le> 8640000000000000"
    and mono: "\<forall>i \<in> {0..60}. iso_format (now - i * 60000) \<le> iso_format now"
    and before: "\<forall>r \<in> set (metrics d). row_timestamp r \<le> iso_format now"
  shows "\<exists>d'. seedHistoricalData s2n rnd now (JNumber (Num 1)) d = (Inr 69, d')
          \<and> length (line_rows d') = length (line_rows d) + 61
          \<and> (\<forall>r \<in> set (metrics d'). row_timestamp r \<le> iso_format now)
          \<and> iso_format now \<in> row_timestamp ` set (line_rows d')"
proof -
  let ?L = "map (\<lambda>j. line_metric rnd now (60 - j) (0 + j)) [0..<Suc 60]"
  let ?C = "seed_categories rnd now"
  let ?pr = "\<lambda>r. (row_timestamp r, row_metricType r)"
  let ?pm = "\<lambda>m. (timestamp m, metricType m)"
  have L: "metricType m = Line \<and> timestamp m \<le> iso_format now \<and> mvalue m \<noteq> NaN"
    if "m \<in> set ?L" for m
  proof -
    from that obtain j where j: "j < 61" and m: "m = line_metric rnd now (60 - j) j" by auto
    have "int (60 - j) \<in> {0..60}" using j by auto
    with mono have "iso_format (now - int (60 - j) * 60000) \<le> iso_format now" by blast
    then show ?thesis using m by (simp add: line_metric_def scaled_def)
  qed
  have L0: "line_metric rnd now 0 60 \<in> set ?L"
  proof -
    have "(60::nat) \<in> set [0..<Suc 60]" by simp
    then have "line_metric rnd now (60 - 60) (0 + 60) \<in> (\<lambda>j. line_metric rnd now (60 - j) (0 + j)) ` set [0..<Suc 60]"
      by (rule imageI)
    then show ?thesis by (simp only: set_map diff_self_eq_0 add_0)
  qed
  have lenL: "length ?L = 61" by simp
  have C: "metricType m \<noteq> Line \<and> timestamp m = iso_format now \<and> mvalue m \<noteq> NaN"
    if "m \<in> set ?C" for m using that by (rule seed_categories_facts)
  have app: "applied (?L @ ?C)"
    unfolding applied_def using L C by (auto simp del: upt_Suc set_map map_map)
  have res: "fst (insertMetricsBatch (?L @ ?C) d) = Inr 69"
    using insertMetricsBatch_cases [of "?L @ ?C" d] app lenL seed_categories_facts(1) [of rnd now]
    by (simp del: upt_Suc)
  from app obtain d' where many: "insertMany (?L @ ?C) d = Inr d'"
    using insertMany_ok by blast
  then have d': "insertMetricsBatch (?L @ ?C) d = (Inr 69, d')"
    using res by (simp add: insertMetricsBatch_def transaction_def)
  have rows: "map ?pr (metrics d') = map ?pr (metrics d) @ map ?pm ?L @ map ?pm ?C"
    using insertMany_rows [OF many] by (simp del: upt_Suc)
  have fL: "filter (\<lambda>p. snd p = Line) (map ?pm ?L) = map ?pm ?L"
    using L by (auto simp: filter_id_conv simp del: upt_Suc)
  have fC: "filter (\<lambda>p. snd p = Line) (map ?pm ?C) = []"
    using C by (auto simp: filter_empty_conv)
  have lines: "map row_timestamp (line_rows d')
      = map row_timestamp (line_rows d) @ map timestamp ?L"
    unfolding line_rows_stamps rows filter_append map_append fL fC
    by (simp add: comp_def del: upt_Suc)
  have "length (map row_timestamp (line_rows d')) = length (line_rows d) + 61"
    unfolding lines using lenL by (simp del: upt_Suc)
  then have len: "length (line_rows d') = length (line_rows d) + 61" by simp
  have stamps: "map row_timestamp (metrics d')
      = map row_timestamp (metrics d) @ map timestamp ?L @ map timestamp ?C"
    unfolding all_stamps rows by (simp add: comp_def del: upt_Suc)
  have le: "\<forall>r \<in> set (metrics d'). row_timestamp r \<le> iso_format now"
  proof
    fix r assume "r \<in> set (metrics d')"
    then have "row_timestamp r \<in> set (map row_timestamp (metrics d'))" by simp
    then have "row_timestamp r \<in> row_timestamp ` set (metrics d) \<union> timestamp ` set ?L \<union> timestamp ` set ?C"
      unfolding stamps by (auto simp del: upt_Suc)
    then show "row_timestamp r \<le> iso_format now"
      using before L C by (auto simp del: upt_Suc set_map)
  qed
  have "timestamp (line_metric rnd now 0 60) \<in> set (map timestamp ?L)"
    using L0 by (simp only: set_map) (rule imageI)
  then have "iso_format now \<in> set (map row_timestamp (line_rows d'))"
    unfolding lines by (simp add: line_metric_def del: upt_Suc)
  then have top: "iso_format now \<in> row_timestamp ` set (line_rows d')" by simp
  show ?thesis
    using seed_batch [OF range, of s2n rnd d] d' len le top by (auto simp del: upt_Suc)
qed

text \<open>
  Claim C7.  For every store and every limit, \<open>getLineChartData\<close> returns the line points
  in non-decreasing order of their timestamps, at most \<open>limit\<close> of them, and they are the
  most recent ones: the line points split into the returned ones and older ones, none of
  which is later than a returned one.  Seeding one hour of history into a store that
  holds nothing later than \<open>now\<close> adds 61 line points; the snapshot then has 10 line
  entries and the last one carries the maximum of all stored timestamps.  The seeding
  scenario is stated for a clock reading whose 61 minute stamps do not sort after the
  stamp of \<open>now\<close> itself, as the ISO strings of a four-digit year do.
\<close>

theorem getLineChartData_recent_ascending:
  "sorted (map fst (getLineChartData limit d))
   \<and> length (getLineChartData limit d) = min limit (length (line_rows d))
   \<and> (\<exists>older kept. mset (older @ kept) = mset (line_rows d)
         \<and> getLineChartData limit d = map (\<lambda>r. (row_timestamp r, row_value r)) kept
         \<and> (\<forall>a \<in> set older. \<forall>b \<in> set kept. row_timestamp a \<le> row_timestamp b))
   \<and> (0 \<le> now \<and> now \<le> 8640000000000000
        \<and> (\<forall>i \<in> {0..60}. iso_format (now - i * 60000) \<le> iso_format now)
        \<and> (\<forall>r \<in> set (metrics d). row_timestamp r \<le> iso_format now) \<longrightarrow>
        (\<exists>d'. seedHistoricalData s2n rnd now (JNumber (Num 1)) d = (Inr 69, d')
           \<and> length (line_rows d') = length (line_rows d) + 61
           \<and> length (lineChartData (getDashboardData summation later d')) = 10
           \<and> fst (last (lineChartData (getDashboardData summation later d')))
               = Max (row_timestamp ` set (metrics d'))))"
proof -
  have scenario: "\<exists>d'. seedHistoricalData s2n rnd now (JNumber (Num 1)) d = (Inr 69, d')
           \<and> length (line_rows d') = length (line_rows d) + 61
           \<and> length (lineChartData (getDashboardData summation later d')) = 10
           \<and> fst (last (lineChartData (getDashboardData summation later d')))
               = Max (row_timestamp ` set (metrics d'))"
    if range: "0 \<le> now" "now \<le> 8640000000000000"
      and mono: "\<forall>i \<in> {0..60}. iso_format (now - i * 60000) \<le> iso_format now"
      and before: "\<forall>r \<in> set (metrics d). row_timestamp r \<le> iso_format now"
  proof -
    from seeded_store [OF range mono before, of s2n rnd]
    obtain d' where seed: "seedHistoricalData s2n rnd now (JNumber (Num 1)) d = (Inr 69, d')"
      and len: "length (line_rows d') = length (line_rows d) + 61"
      and le: "\<forall>r \<in> set (metrics d'). row_timestamp r \<le> iso_format now"
      and top: "iso_format now \<in> row_timestamp ` set (line_rows d')"
      by blast
    have ne: "line_rows d' \<noteq> []" using len by auto
    have sub: "set (line_rows d') \<subseteq> set (metrics d')" by (auto simp: line_rows_def)
    have m1: "Max (row_timestamp ` set (line_rows d')) = iso_format now"
      using top le sub by (intro Max_eqI) auto
    have "iso_format now \<in> row_timestamp ` set (metrics d')" using top sub by auto
    then have m2: "Max (row_timestamp ` set (metrics d')) = iso_format now"
      using le by (intro Max_eqI) auto
    have "length (lineChartData (getDashboardData summation later d')) = 10"
      using len by (simp add: getDashboardData_def getLineChartData_length)
    moreover have "fst (last (lineChartData (getDashboardData summation later d')))
        = Max (row_timestamp ` set (metrics d'))"
      using getLineChartData_last [of 10 d'] ne m1 m2 by (simp add: getDashboardData_def)
    ultimately show ?thesis using seed len by blast
  qed
  show ?thesis
    using getLineChartData_sorted [of limit d] getLineChartData_length [of limit d]
      getLineChartData_most_recent [of d limit] scenario
    by blast
qed

text \<open>
  The hour before noon of 2025-11-03: every stamp in it starts with \<open>2025-11-03T11:\<close>,
  which sorts before the stamp of noon.
\<close>

lemma pad_numeral: "pad (numeral k) n = pad (pred_numeral k) (n div 10) @ [''0123456789'' ! (n mod 10)]"
  by (subst numeral_eq_Suc) (simp only: pad.simps)

lemma day_2025_11_03: "civil_from_days 20395 = (2025, 11, 3)"
  unfolding civil_from_days_def Let_def by simp

lemma noon: "iso_format 1762171200000 = ''2025-11-03T12:00:00.000Z''"
  by (simp add: iso_format_def day_2025_11_03 year_string_def pad_numeral)

lemma eleventh_hour:
  assumes "1762167600000 \<le> t" "t < 1762171200000"
  shows "\<exists>rest. iso_format t = ''2025-11-03T11:'' @ rest"
proof -
  have "1762167600000 div 86400000 \<le> t div 86400000" "t div 86400000 \<le> 1762171200000 div 86400000"
    using assms by (auto intro!: zdiv_mono1)
  then have day: "t div 86400000 = 20395" by simp
  have ms: "t mod 86400000 = t - 1762128000000"
    using day minus_div_mult_eq_mod [of t 86400000] by simp
  have "39600000 div 3600000 \<le> (t - 1762128000000) div 3600000"
    "(t - 1762128000000) div 3600000 \<le> 43199999 div 3600000"
    using assms by (auto intro!: zdiv_mono1)
  then have hour: "(t - 1762128000000) div 3600000 = 11" by simp
  show ?thesis
    by (simp add: iso_format_def day ms hour day_2025_11_03 year_string_def pad_numeral Let_def)
qed

lemma minutes_ascending:
  "\<forall>i \<in> {0..60}. iso_format (1762171200000 - i * 60000) \<le> iso_format 1762171200000"
proof
  fix i :: int assume i: "i \<in> {0..60}"
  show "iso_format (1762171200000 - i * 60000) \<le> iso_format 1762171200000"
  proof (cases "i = 0")
    case True
    then show ?thesis by simp
  next
    case False
    with i have "1762167600000 \<le> 1762171200000 - i * 60000" "1762171200000 - i * 60000 < 1762171200000"
      by auto
    from eleventh_hour [OF this] obtain rest
      where "iso_format (1762171200000 - i * 60000) = ''2025-11-03T11:'' @ rest" ..
    then show ?thesis by (simp add: noon)
  qed
qed

theorem seeded_dashboard_witness:
  "\<exists>d'. seedHistoricalData (\<lambda>s. NaN) (\<lambda>k. 1 / 2) 1762171200000 (JNumber (Num 1)) empty_db = (Inr 69, d')
     \<and> length (line_rows d') = 61
     \<and> length (lineChartData (getDashboardData rounding_sum 1762171200200 d')) = 10
     \<and> fst (last (lineChartData (getDashboardData rounding_sum 1762171200200 d')))
         = Max (row_timestamp ` set (metrics d'))"
proof -
  have e: "\<forall>r \<in> set (metrics empty_db). row_timestamp r \<le> iso_format 1762171200000"
    by (simp add: empty_db_def)
  have l: "line_rows empty_db = []" by (simp add: empty_db_def line_rows_def)
  show ?thesis
    using getLineChartData_recent_ascending
      [where limit = 10 and d = empty_db and now = 1762171200000 and ?s2n = "\<lambda>s. NaN"
         and rnd = "\<lambda>k. 1 / 2" and summation = rounding_sum and later = 1762171200200]
      minutes_ascending e l
    by simp
qed


section \<open>Properties of the HTTP handlers\<close>

lemma seed_lines_NaN: "seed_lines rnd now NaN i k = Inl RangeError"
  by (cases i) (simp_all add: seed_point_def Date_toISOString_def TimeClip_def)

lemma seedHistoricalData_NaN:
  assumes "h \<noteq> JUndefined" "ToNumber s2n h = NaN"
  shows "seedHistoricalData s2n rnd now h d = (Inl RangeError, d)"
  using assms by (simp add: seedHistoricalData_def seed_lines_NaN)

lemma cleanupOldData_NaN:
  assumes "h \<noteq> JUndefined" "ToNumber s2n h = NaN"
  shows "cleanupOldData s2n now h d = Inl RangeError"
  using assms by (simp add: cleanupOldData_def cutoffTime_def Date_toISOString_def TimeClip_def)

lemma field_or_present:
  "map_of body name = Some h \<Longrightarrow> h \<noteq> JUndefined \<Longrightarrow> field_or body name dflt = h"
  by (simp add: field_or_def)

text \<open>
  Claim C6 says that a malformed body is rejected with a validation message before any
  store operation.  The handlers have no validation.  With \<open>{"hours": null}\<close> the cleanup
  endpoint reads \<open>null\<close> as 0 hours, answers with success and deletes every point older
  than the time of the request: here both points of the retention scenario.
\<close>

theorem malformed_hours_cleanup_counterexample:
  "delete_cleanup s2n_sample 1762128000000 [(''hours'', JNull)] scenario4_db
     = (\<lparr>status = 200, success = True, error_text = None, number = Some 2\<rparr>,
        \<lparr>metrics = [], sqlite_sequence = 2\<rparr>)"
  by code_simp

text \<open>
  Claim C6, as the code has it.  The \<open>hours\<close> field is used after the numeric coercion
  of the runtime.  When it coerces to \<open>NaN\<close>, making the timestamp throws before any store
  operation: the answer is status 500 with the handler's fixed text and the store is
  unchanged.  When it coerces to a number \<open>x\<close>, the request is processed as the request
  with \<open>hours = x\<close> is.
\<close>

theorem unvalidated_hours:
  assumes "map_of body ''hours'' = Some h" and "h \<noteq> JUndefined"
  shows "(ToNumber s2n h = NaN \<longrightarrow>
            post_seed s2n rnd now body d
              = (\<lparr>status = 500, success = False, error_text = Some ''Failed to seed data'',
                  number = None\<rparr>, d)
            \<and> delete_cleanup s2n now body d
              = (\<lparr>status = 500, success = False, error_text = Some ''Failed to cleanup data'',
                  number = None\<rparr>, d))
       \<and> (ToNumber s2n h = Num x \<longrightarrow>
            post_seed s2n rnd now body d
              = post_seed s2n rnd now [(''hours'', JNumber (Num x))] d
            \<and> delete_cleanup s2n now body d
              = delete_cleanup s2n now [(''hours'', JNumber (Num x))] d)"
proof -
  have f: "field_or body ''hours'' dflt = h" for dflt
    using assms by (rule field_or_present)
  have g: "field_or [(''hours'', JNumber (Num x))] ''hours'' dflt = JNumber (Num x)" for dflt
    by (simp add: field_or_def)
  have nan: "post_seed s2n rnd now body d
              = (\<lparr>status = 500, success = False, error_text = Some ''Failed to seed data'',
                  number = None\<rparr>, d)
            \<and> delete_cleanup s2n now body d
              = (\<lparr>status = 500, success = False, error_text = Some ''Failed to cleanup data'',
                  number = None\<rparr>, d)" if "ToNumber s2n h = NaN"
    using that assms(2)
    by (simp add: post_seed_def delete_cleanup_def f seedHistoricalData_NaN cleanupOldData_NaN)
  have num: "post_seed s2n rnd now body d
              = post_seed s2n rnd now [(''hours'', JNumber (Num x))] d
            \<and> delete_cleanup s2n now body d
              = delete_cleanup s2n now [(''hours'', JNumber (Num x))] d" if "ToNumber s2n h = Num x"
    using that assms(2)
    by (simp add: post_seed_def delete_cleanup_def f g seedHistoricalData_def cleanupOldData_def
        cutoffTime_def)
  show ?thesis using nan num by blast
qed

theorem unvalidated_hours_witness:
  "map_of [(''hours'', JString ''abc'')] ''hours'' = Some (JString ''abc'')
   \<and> ToNumber s2n_sample (JString ''abc'') = NaN
   \<and> post_seed s2n_sample (\<lambda>k. 1 / 2) 1762128000000 [(''hours'', JString ''abc'')] scenario4_db
       = (\<lparr>status = 500, success = False, error_text = Some ''Failed to seed data'',
           number = None\<rparr>, scenario4_db)
   \<and> delete_cleanup s2n_sample 1762128000000 [(''hours'', JString ''abc'')] scenario4_db
       = (\<lparr>status = 500, success = False, error_text = Some ''Failed to cleanup data'',
           number = None\<rparr>, scenario4_db)
   \<and> ToNumber s2n_sample (JString ''24'') = Num 24
   \<and> delete_cleanup s2n_sample 1762128000000 [(''hours'', JString ''24'')] scenario4_db
       = delete_cleanup s2n_sample 1762128000000 [(''hours'', JNumber (Num 24))] scenario4_db"
proof -
  have a: "map_of [(''hours'', JString ''abc'')] ''hours'' = Some (JString ''abc'')" by simp
  have b: "map_of [(''hours'', JString ''24'')] ''hours'' = Some (JString ''24'')" by simp
  have n: "ToNumber s2n_sample (JString ''abc'') = NaN" by (simp add: s2n_sample_def)
  have m: "ToNumber s2n_sample (JString ''24'') = Num 24" by (simp add: s2n_sample_def)
  show ?thesis
    using unvalidated_hours [OF a, where s2n = s2n_sample and x = 0 and rnd = "\<lambda>k. 1 / 2"
          and now = 1762128000000 and d = scenario4_db]
      unvalidated_hours [OF b, where s2n = s2n_sample and x = 24 and rnd = "\<lambda>k. 1 / 2"
          and now = 1762128000000 and d = scenario4_db]
      a n m by simp
qed


section \<open>Properties of the broadcast\<close>

lemma forEach_send_all:
  "\<forall>c \<in> set clients. readyState c = OPEN \<longrightarrow> \<not> send_throws c \<Longrightarrow>
   forEach_send clients = (map socket_id (filter (\<lambda>c. readyState c = OPEN) clients), None)"
  by (induction clients) auto

text \<open>
  Claim C4 says that a failed send is caught, the connection removed from the set and
  the loop continued.  With a closing connection, a connection whose \<open>send\<close> throws and
  a sound one, the call leaves all three in the set, the exception leaves the call, and
  the sound connection gets nothing.
\<close>

theorem broadcast_failure_counterexample:
  "fst (broadcastUpdate rounding_sum 1762128000000 empty_db [closing_socket, throwing_socket, sound_socket])
     = [closing_socket, throwing_socket, sound_socket]
   \<and> snd (broadcastUpdate rounding_sum 1762128000000 empty_db [closing_socket, throwing_socket, sound_socket])
     = ([], Some SendError)"
  by (simp add: broadcastUpdate_def closing_socket_def throwing_socket_def sound_socket_def)

text \<open>
  Claim C4, as the code has it.  \<open>broadcastUpdate\<close> never changes the set of clients.  A
  connection that is not open is skipped; when no \<open>send\<close> throws, every open connection
  gets the one update message, in the order of the set.  A connection leaves the set in
  the handlers of its own \<open>close\<close> and \<open>error\<close> events.
\<close>

theorem broadcastUpdate_keeps_clients:
  "fst (broadcastUpdate summation now d clients) = clients
   \<and> ((\<forall>c \<in> set clients. readyState c = OPEN \<longrightarrow> \<not> send_throws c) \<longrightarrow>
        snd (broadcastUpdate summation now d clients)
          = (map (\<lambda>c. (socket_id c,
                        \<lparr>msg_type = Update, msg_data = getDashboardData summation now d,
                          msg_timestamp = Some (iso_format now)\<rparr>))
               (filter (\<lambda>c. readyState c = OPEN) clients),
             None))
   \<and> on_close ws clients = removeAll ws clients
   \<and> on_error ws clients = removeAll ws clients"
proof -
  have keep: "fst (broadcastUpdate summation now d clients) = clients"
    by (simp add: broadcastUpdate_def Let_def split: prod.splits)
  have all: "snd (broadcastUpdate summation now d clients)
          = (map (\<lambda>c. (socket_id c,
                        \<lparr>msg_type = Update, msg_data = getDashboardData summation now d,
                          msg_timestamp = Some (iso_format now)\<rparr>))
               (filter (\<lambda>c. readyState c = OPEN) clients),
             None)"
    if "\<forall>c \<in> set clients. readyState c = OPEN \<longrightarrow> \<not> send_throws c"
    using forEach_send_all [OF that]
    by (cases clients) (simp_all add: broadcastUpdate_def Let_def comp_def)
  show ?thesis
    using keep all by (simp add: on_close_def on_error_def clients_delete_def)
qed

theorem broadcastUpdate_witness:
  "fst (broadcastUpdate rounding_sum 1762128000000 empty_db [closing_socket, sound_socket])
     = [closing_socket, sound_socket]
   \<and> snd (broadcastUpdate rounding_sum 1762128000000 empty_db [closing_socket, sound_socket])
     = ([(3, \<lparr>msg_type = Update, msg_data = getDashboardData rounding_sum 1762128000000 empty_db,
              msg_timestamp = Some (iso_format 1762128000000)\<rparr>)], None)
   \<and> on_close closing_socket [closing_socket, sound_socket] = [sound_socket]"
proof -
  have h: "\<forall>c \<in> set [closing_socket, sound_socket]. readyState c = OPEN \<longrightarrow> \<not> send_throws c"
    by (simp add: closing_socket_def sound_socket_def)
  have f: "filter (\<lambda>c. readyState c = OPEN) [closing_socket, sound_socket] = [sound_socket]"
    by (simp add: closing_socket_def sound_socket_def)
  have r: "removeAll closing_socket [closing_socket, sound_socket] = [sound_socket]"
    by (simp add: closing_socket_def sound_socket_def)
  show ?thesis
    using broadcastUpdate_keeps_clients
      [where summation = rounding_sum and now = 1762128000000 and d = empty_db
         and clients = "[closing_socket, sound_socket]" and ws = closing_socket] h f r
    by (simp add: sound_socket_def)
qed


section \<open>Properties of the push transport\<close>

lemma ws_run_append: "ws_run opts s (xs @ ys) = ws_run opts (ws_run opts s xs) ys"
  by (simp add: ws_run_def)

lemma ws_run_Cons: "ws_run opts s (x # xs) = ws_run opts (ws_step opts s x) xs"
  by (simp add: ws_run_def)

lemma ws_run_Nil: "ws_run opts s [] = s"
  by (simp add: ws_run_def)

lemma failures_Suc: "failures (Suc n) = failures n @ failure n"
  by (simp add: failures_def)

lemma attempting_mount:
  "url_valid opts \<Longrightarrow> attempting 0 (ws_step opts ws_initial Mount)"
  by (simp add: attempting_def ws_mount_def connect_def ws_initial_def)

lemma attempting_closed:
  assumes "attempting n s"
  shows "ws_run opts s [SocketError n, SocketClose n]
     = (if n < maxReconnectAttempts opts then
          s\<lparr>isConnected := False, ws_error := Some ''WebSocket connection error'',
            reconnectAttempt := Suc n, wsRef := None, reconnectTimeoutRef := Some n,
            reconnectAttemptRef := Suc n, sockets := [], timers := [n], next_timer := Suc n,
            signals := signals s @ [SetError ''WebSocket connection error'', OnError, OnDisconnect]\<rparr>
        else
          s\<lparr>isConnected := False, ws_error := Some ''Max reconnection attempts reached'',
            wsRef := None, sockets := [],
            signals := signals s @ [SetError ''WebSocket connection error'', OnError, OnDisconnect,
                                    SetError ''Max reconnection attempts reached'']\<rparr>)"
  using assms
  by (simp add: attempting_def ws_run_def ws_onerror_def ws_onclose_def Let_def)

lemma attempting_failure:
  assumes "url_valid opts" "attempting n s" "n < maxReconnectAttempts opts"
  shows "attempting (Suc n) (ws_run opts s (failure n))"
proof -
  have "ws_run opts s (failure n) = ws_run opts (ws_run opts s [SocketError n, SocketClose n]) [TimerFire n]"
    by (simp add: failure_def ws_run_def)
  then show ?thesis
    using assms unfolding attempting_closed [OF assms(2)]
    by (simp add: attempting_def ws_run_def connect_def)
qed

lemma attempting_failures:
  assumes "url_valid opts"
  shows "n \<le> maxReconnectAttempts opts \<Longrightarrow>
         attempting n (ws_run opts ws_initial (Mount # failures n))"
proof (induction n)
  case 0
  then show ?case using attempting_mount [OF assms] by (simp add: failures_def ws_run_def)
next
  case (Suc n)
  then have "attempting n (ws_run opts ws_initial (Mount # failures n))" by simp
  then have "attempting (Suc n) (ws_run opts (ws_run opts ws_initial (Mount # failures n)) (failure n))"
    using assms Suc.prems by (intro attempting_failure) simp_all
  then show ?case by (simp add: failures_Suc ws_run_def)
qed


lemma failed_after_budget:
  assumes "url_valid opts"
  shows "ws_run opts ws_initial
           (Mount # failures (maxReconnectAttempts opts)
              @ [SocketError (maxReconnectAttempts opts), SocketClose (maxReconnectAttempts opts)])
         = (ws_run opts ws_initial (Mount # failures (maxReconnectAttempts opts)))
             \<lparr>isConnected := False, ws_error := Some ''Max reconnection attempts reached'',
              wsRef := None, sockets := [],
              signals := signals (ws_run opts ws_initial (Mount # failures (maxReconnectAttempts opts)))
                  @ [SetError ''WebSocket connection error'', OnError, OnDisconnect,
                     SetError ''Max reconnection attempts reached'']\<rparr>"
proof -
  let ?m = "maxReconnectAttempts opts"
  let ?s = "ws_run opts ws_initial (Mount # failures ?m)"
  have a: "attempting ?m ?s" using attempting_failures [OF assms, of ?m] by simp
  have "ws_run opts ws_initial (Mount # failures ?m @ [SocketError ?m, SocketClose ?m])
      = ws_run opts ?s [SocketError ?m, SocketClose ?m]"
    by (simp add: ws_run_def)
  then show ?thesis unfolding attempting_closed [OF a] by simp
qed

text \<open>
  Claim C1 says that the hook has failed after exactly \<open>max\<close> consecutive connection
  failures.  With the default of 10 attempts, after the tenth failure in a row (the
  first attempt and nine retries) the hook has not failed: it holds the plain connection
  error, it has counted attempt 10, and the timeout of the tenth retry is pending.
\<close>

theorem ten_failures_counterexample:
  "ws_error (ws_run default_options ws_initial (Mount # failures 9 @ [SocketError 9, SocketClose 9]))
     = Some ''WebSocket connection error''
   \<and> timers (ws_run default_options ws_initial (Mount # failures 9 @ [SocketError 9, SocketClose 9]))
     = [9]
   \<and> reconnectAttemptRef
       (ws_run default_options ws_initial (Mount # failures 9 @ [SocketError 9, SocketClose 9])) = 10
   \<and> count_list
       (signals (ws_run default_options ws_initial (Mount # failures 9 @ [SocketError 9, SocketClose 9])))
       (SetError ''Max reconnection attempts reached'') = 0"
proof -
  let ?s = "ws_run default_options ws_initial (Mount # failures 9)"
  have v: "url_valid default_options" and m: "maxReconnectAttempts default_options = 10"
    by (simp_all add: default_options_def)
  have a: "attempting 9 ?s" using attempting_failures [OF v, of 9] m by simp
  have "ws_run default_options ws_initial (Mount # failures 9 @ [SocketError 9, SocketClose 9])
      = ws_run default_options ?s [SocketError 9, SocketClose 9]"
    by (simp add: ws_run_def)
  then show ?thesis
    unfolding attempting_closed [OF a] using a m by (simp add: attempting_def)
qed

text \<open>
  Claim C1, as the code has it.  A socket that opens sets the attempt counter to 0.  An
  unintentional close while the hook is mounted and the counter is below the maximum
  adds exactly 1 to it.  In a run of consecutive failures from the mount, the hook is
  still connecting after each of the first \<open>max\<close> failures, with the counter at the number
  of failures and no failure signalled; the failure number \<open>max + 1\<close> (the first attempt
  and \<open>max\<close> retries) sets the error 'Max reconnection attempts reached', once, and
  leaves neither a socket nor a timeout, so that nothing more can happen.
\<close>

theorem reconnect_budget:
  assumes "url_valid opts"
  shows "((ws, CONNECTING) \<in> set (sockets s) \<longrightarrow>
            reconnectAttemptRef (ws_step opts s (SocketOpen ws)) = 0)
     \<and> (ws \<in> fst ` set (sockets s) \<and> \<not> intentionalCloseRef s \<and> ws_mountedRef s
          \<and> reconnectAttemptRef s < maxReconnectAttempts opts \<longrightarrow>
            reconnectAttemptRef (ws_step opts s (SocketClose ws)) = reconnectAttemptRef s + 1)
     \<and> (n \<le> maxReconnectAttempts opts \<longrightarrow>
            reconnectAttemptRef (ws_run opts ws_initial (Mount # failures n)) = n
            \<and> sockets (ws_run opts ws_initial (Mount # failures n)) = [(n, CONNECTING)]
            \<and> timers (ws_run opts ws_initial (Mount # failures n)) = []
            \<and> count_list (signals (ws_run opts ws_initial (Mount # failures n)))
                  (SetError ''Max reconnection attempts reached'') = 0)
     \<and> (failed = ws_run opts ws_initial
            (Mount # failures (maxReconnectAttempts opts)
               @ [SocketError (maxReconnectAttempts opts), SocketClose (maxReconnectAttempts opts)]) \<longrightarrow>
            ws_error failed = Some ''Max reconnection attempts reached''
            \<and> count_list (signals failed) (SetError ''Max reconnection attempts reached'') = 1
            \<and> reconnectAttemptRef failed = maxReconnectAttempts opts
            \<and> sockets failed = [] \<and> timers failed = []
            \<and> ws_step opts failed (TimerFire k) = failed
            \<and> ws_step opts failed (SocketClose k) = failed
            \<and> ws_step opts failed (SocketError k) = failed)"
proof -
  let ?m = "maxReconnectAttempts opts"
  have opened: "reconnectAttemptRef (ws_step opts s (SocketOpen ws)) = 0"
    if "(ws, CONNECTING) \<in> set (sockets s)"
    using that by (simp add: ws_onopen_def)
  have closed: "reconnectAttemptRef (ws_step opts s (SocketClose ws)) = reconnectAttemptRef s + 1"
    if "ws \<in> fst ` set (sockets s)" "\<not> intentionalCloseRef s" "ws_mountedRef s"
      "reconnectAttemptRef s < ?m"
    using that by (simp add: ws_onclose_def Let_def)
  have below: "reconnectAttemptRef (ws_run opts ws_initial (Mount # failures n)) = n
            \<and> sockets (ws_run opts ws_initial (Mount # failures n)) = [(n, CONNECTING)]
            \<and> timers (ws_run opts ws_initial (Mount # failures n)) = []
            \<and> count_list (signals (ws_run opts ws_initial (Mount # failures n)))
                  (SetError ''Max reconnection attempts reached'') = 0"
    if "n \<le> ?m"
    using attempting_failures [OF assms that] by (simp add: attempting_def)
  have a: "attempting ?m (ws_run opts ws_initial (Mount # failures ?m))"
    using attempting_failures [OF assms, of ?m] by simp
  have failed: "ws_error failed = Some ''Max reconnection attempts reached''
            \<and> count_list (signals failed) (SetError ''Max reconnection attempts reached'') = 1
            \<and> reconnectAttemptRef failed = ?m
            \<and> sockets failed = [] \<and> timers failed = []
            \<and> ws_step opts failed (TimerFire k) = failed
            \<and> ws_step opts failed (SocketClose k) = failed
            \<and> ws_step opts failed (SocketError k) = failed"
    if "failed = ws_run opts ws_initial (Mount # failures ?m @ [SocketError ?m, SocketClose ?m])"
    unfolding that failed_after_budget [OF assms] using a by (simp add: attempting_def)
  show ?thesis using opened closed below failed by blast
qed

theorem reconnect_budget_witness:
  "url_valid default_options
   \<and> (0, CONNECTING) \<in> set (sockets (ws_step default_options ws_initial Mount))
   \<and> reconnectAttemptRef
         (ws_step default_options (ws_step default_options ws_initial Mount) (SocketOpen 0)) = 0
   \<and> reconnectAttemptRef
         (ws_step default_options (ws_step default_options ws_initial Mount) (SocketClose 0)) = 1
   \<and> reconnectAttemptRef (ws_run default_options ws_initial (Mount # failures 10)) = 10
   \<and> sockets (ws_run default_options ws_initial (Mount # failures 10)) = [(10, CONNECTING)]
   \<and> ws_error (ws_run default_options ws_initial
                   (Mount # failures 10 @ [SocketError 10, SocketClose 10]))
       = Some ''Max reconnection attempts reached''
   \<and> count_list (signals (ws_run default_options ws_initial
                   (Mount # failures 10 @ [SocketError 10, SocketClose 10])))
         (SetError ''Max reconnection attempts reached'') = 1
   \<and> timers (ws_run default_options ws_initial
                   (Mount # failures 10 @ [SocketError 10, SocketClose 10])) = []
   \<and> sockets (ws_run default_options ws_initial
                   (Mount # failures 10 @ [SocketError 10, SocketClose 10])) = []"
proof -
  have v: "url_valid default_options" and m: "maxReconnectAttempts default_options = 10"
    by (simp_all add: default_options_def)
  let ?s = "ws_step default_options ws_initial Mount"
  have s: "sockets ?s = [(0, CONNECTING)]" "\<not> intentionalCloseRef ?s" "ws_mountedRef ?s"
    "reconnectAttemptRef ?s = 0"
    using v by (simp_all add: ws_mount_def connect_def ws_initial_def)
  show ?thesis
    using reconnect_budget [OF v, where ws = 0 and s = ?s and n = 10 and k = 0
        and failed = "ws_run default_options ws_initial
                   (Mount # failures 10 @ [SocketError 10, SocketClose 10])"]
      v s unfolding m by simp
qed


text \<open>
  Claim C3 says that a manual reconnect closes the socket with the intentional-close flag
  set, and that the hook owns at most one socket at any time.  \<open>reconnect()\<close> closes the
  socket without setting the flag (the cleanup on unmount sets it).  The close event of
  the old socket then clears \<open>wsRef\<close>, which by then holds the new socket, counts an
  attempt and sets a timeout; when that fires, a second socket is opened beside the one
  that \<open>reconnect()\<close> made, and both are open.
\<close>

theorem reconnect_not_marked_intentional:
  "intentionalCloseRef (ws_run default_options ws_initial [Mount, SocketOpen 0, Reconnect]) = False
   \<and> sockets (ws_run default_options ws_initial [Mount, SocketOpen 0, Reconnect])
       = [(0, CLOSING), (1, CONNECTING)]
   \<and> wsRef (ws_run default_options ws_initial [Mount, SocketOpen 0, Reconnect, SocketClose 0]) = None
   \<and> reconnectAttemptRef
         (ws_run default_options ws_initial [Mount, SocketOpen 0, Reconnect, SocketClose 0]) = 1
   \<and> timers (ws_run default_options ws_initial [Mount, SocketOpen 0, Reconnect, SocketClose 0]) = [0]
   \<and> sockets (ws_run default_options ws_initial
          [Mount, SocketOpen 0, Reconnect, SocketClose 0, SocketOpen 1, TimerFire 0, SocketOpen 2])
       = [(1, OPEN), (2, OPEN)]
   \<and> intentionalCloseRef (ws_run default_options ws_initial [Mount, SocketOpen 0, Unmount]) = True
   \<and> timers (ws_run default_options ws_initial [Mount, SocketOpen 0, Unmount, SocketClose 0]) = []"
  by (simp add: ws_run_def default_options_def ws_initial_def ws_mount_def ws_unmount_def
      connect_def reconnect_def socket_close_def ws_onopen_def ws_onclose_def Let_def)


section \<open>Properties of the pull transport\<close>

lemma guarded_fetchData: "guarded s \<Longrightarrow> guarded (fetchData s)"
  by (auto simp: guarded_def fetchData_def)

lemma guarded_clear_interval: "guarded s \<Longrightarrow> guarded (clear_interval s)"
  by (auto simp: guarded_def clear_interval_def split: option.splits)

lemma guarded_interval_effect: "guarded s \<Longrightarrow> guarded (interval_effect s)"
  using guarded_clear_interval [of s] by (auto simp: interval_effect_def Let_def) (simp add: guarded_def)

lemma guarded_interval_cleanup: "guarded s \<Longrightarrow> guarded (interval_cleanup s)"
  by (simp add: interval_cleanup_def guarded_clear_interval)

lemma guarded_enabled_update: "guarded s \<Longrightarrow> guarded (s\<lparr>enabled := en\<rparr>)"
  by (simp add: guarded_def)

lemma guarded_initial_fetch: "guarded s \<Longrightarrow> guarded (initial_fetch_effect s)"
  by (simp add: initial_fetch_effect_def guarded_fetchData)

lemma guarded_render: "guarded s \<Longrightarrow> guarded (poll_render en s)"
  unfolding poll_render_def
  by (intro guarded_interval_effect guarded_initial_fetch guarded_enabled_update guarded_interval_cleanup)

lemma guarded_settled: "guarded s \<Longrightarrow> 0 < in_flight s \<Longrightarrow> guarded (fetch_settled outcome clock s)"
  by (auto simp: guarded_def fetch_settled_def Let_def split: fetch_outcome.splits)

lemma guarded_step: "guarded s \<Longrightarrow> guarded (poll_step s ev)"
proof (cases ev)
  case PollMount
  assume "guarded s"
  then show ?thesis unfolding PollMount poll_step.simps poll_mount_def
    by (intro guarded_interval_effect guarded_initial_fetch)
next
  case PollUnmount
  assume "guarded s"
  then have "guarded (interval_cleanup s)" by (rule guarded_interval_cleanup)
  then show ?thesis unfolding PollUnmount by (simp add: poll_unmount_def guarded_def)
next
  case (SetEnabled en)
  assume "guarded s"
  then show ?thesis unfolding SetEnabled by (simp add: set_enabled_def guarded_render)
next
  case Rerender
  assume "guarded s"
  then show ?thesis unfolding Rerender by (simp add: guarded_render)
next
  case (Tick i)
  assume "guarded s"
  then show ?thesis unfolding Tick by (simp add: guarded_fetchData)
next
  case (FetchSettled outcome clock)
  assume "guarded s"
  then show ?thesis unfolding FetchSettled by (simp add: guarded_settled)
next
  case Refresh
  assume "guarded s"
  then have "guarded (s\<lparr>loading := True\<rparr>)" by (simp add: guarded_def)
  then show ?thesis unfolding Refresh by (simp add: refresh_def guarded_fetchData)
qed

lemma guarded_run: "guarded s \<Longrightarrow> guarded (poll_run s evs)"
  unfolding poll_run_def by (induction evs arbitrary: s) (simp_all add: guarded_step)

lemma guarded_initial: "guarded (poll_initial en)"
  by (simp add: guarded_def poll_initial_def)


text \<open>
  Claim C9.  In every run of the hook at most one of its fetches is outstanding.  A tick
  that comes while a fetch is outstanding changes nothing.  When an outstanding fetch
  of a mounted hook fails, the message is recorded as the error and handed to
  \<open>onError\<close>, the snapshot held stays as it was, the interval keeps running, and the
  next tick of an enabled hook fetches again.
\<close>

theorem poll_single_flight:
  "in_flight (poll_run (poll_initial en) evs) \<le> 1
   \<and> (s = poll_run (poll_initial en) evs \<and> 0 < in_flight s \<longrightarrow> poll_step s (Tick i) = s)
   \<and> (s = poll_run (poll_initial en) evs \<and> 0 < in_flight s \<and> poll_mountedRef s \<longrightarrow>
        poll_error (poll_step s (FetchSettled (Failed msg) clock)) = Some msg
        \<and> onError_calls (poll_step s (FetchSettled (Failed msg) clock)) = onError_calls s @ [msg]
        \<and> poll_data (poll_step s (FetchSettled (Failed msg) clock)) = poll_data s
        \<and> intervals (poll_step s (FetchSettled (Failed msg) clock)) = intervals s
        \<and> intervalRef (poll_step s (FetchSettled (Failed msg) clock)) = intervalRef s
        \<and> in_flight (poll_step s (FetchSettled (Failed msg) clock)) = 0
        \<and> fetchingRef (poll_step s (FetchSettled (Failed msg) clock)) = False
        \<and> (i \<in> set (intervals s) \<and> enabled s \<longrightarrow>
             in_flight (poll_step (poll_step s (FetchSettled (Failed msg) clock)) (Tick i)) = 1))"
proof -
  let ?s = "poll_run (poll_initial en) evs"
  have g: "guarded ?s" using guarded_initial by (rule guarded_run)
  then have one: "in_flight ?s \<le> 1" by (simp add: guarded_def)
  have noop: "poll_step ?s (Tick i) = ?s" if "0 < in_flight ?s"
    using g that by (auto simp: guarded_def fetchData_def)
  have fail: "poll_error (poll_step ?s (FetchSettled (Failed msg) clock)) = Some msg
        \<and> onError_calls (poll_step ?s (FetchSettled (Failed msg) clock)) = onError_calls ?s @ [msg]
        \<and> poll_data (poll_step ?s (FetchSettled (Failed msg) clock)) = poll_data ?s
        \<and> intervals (poll_step ?s (FetchSettled (Failed msg) clock)) = intervals ?s
        \<and> intervalRef (poll_step ?s (FetchSettled (Failed msg) clock)) = intervalRef ?s
        \<and> in_flight (poll_step ?s (FetchSettled (Failed msg) clock)) = 0
        \<and> fetchingRef (poll_step ?s (FetchSettled (Failed msg) clock)) = False
        \<and> (i \<in> set (intervals ?s) \<and> enabled ?s \<longrightarrow>
             in_flight (poll_step (poll_step ?s (FetchSettled (Failed msg) clock)) (Tick i)) = 1)"
    if "0 < in_flight ?s" "poll_mountedRef ?s"
  proof -
    from one that(1) have "in_flight ?s = 1" by simp
    then show ?thesis using that(2) by (simp add: fetch_settled_def fetchData_def Let_def)
  qed
  show ?thesis
  proof (cases "s = ?s")
    case True
    show ?thesis unfolding True using one noop fail by blast
  next
    case False
    then show ?thesis using one by simp
  qed
qed

theorem poll_single_flight_witness:
  "in_flight (poll_run (poll_initial True) [PollMount]) = 1
   \<and> poll_mountedRef (poll_run (poll_initial True) [PollMount])
   \<and> intervals (poll_run (poll_initial True) [PollMount]) = [0]
   \<and> poll_step (poll_run (poll_initial True) [PollMount]) (Tick 0)
       = poll_run (poll_initial True) [PollMount]
   \<and> poll_error (poll_step (poll_run (poll_initial True) [PollMount])
         (FetchSettled (Failed ''HTTP error! status: 500'') 1762128003000))
       = Some ''HTTP error! status: 500''
   \<and> poll_data (poll_step (poll_run (poll_initial True) [PollMount])
         (FetchSettled (Failed ''HTTP error! status: 500'') 1762128003000)) = None
   \<and> intervals (poll_step (poll_run (poll_initial True) [PollMount])
         (FetchSettled (Failed ''HTTP error! status: 500'') 1762128003000)) = [0]
   \<and> in_flight (poll_step (poll_step (poll_run (poll_initial True) [PollMount])
         (FetchSettled (Failed ''HTTP error! status: 500'') 1762128003000)) (Tick 0)) = 1"
proof -
  let ?s = "poll_run (poll_initial True) [PollMount]"
  have s: "in_flight ?s = 1" "poll_mountedRef ?s" "intervals ?s = [0]" "enabled ?s" "poll_data ?s = None"
    by (simp_all add: poll_run_def poll_mount_def poll_initial_def initial_fetch_effect_def
        fetchData_def interval_effect_def)
  show ?thesis
    using poll_single_flight [where en = True and evs = "[PollMount]" and s = ?s and i = 0
        and msg = "''HTTP error! status: 500''" and clock = 1762128003000] s
    by (simp del: poll_step.simps)
qed


section \<open>Properties of the supervisor\<close>

lemma not_max_plain [simp]:
  "\<not> str_includes ''Max reconnection'' ''WebSocket connection error''"
  "\<not> str_includes ''Max reconnection'' ''Failed to establish WebSocket connection''"
  "str_includes ''Max reconnection'' ''Max reconnection attempts reached''"
  by simp_all

lemma single_push_cases:
  assumes "single_push w"
  shows "(sockets w = [] \<and> timers w = [])
       \<or> (\<exists>x. sockets w = [x] \<and> timers w = [] \<and> \<not> max_error w)
       \<or> (\<exists>t. sockets w = [] \<and> timers w = [t] \<and> \<not> max_error w)"
proof (cases "sockets w")
  case Nil
  then show ?thesis using assms by (cases "timers w") (auto simp: single_push_def)
next
  case (Cons x xs)
  then show ?thesis using assms by (auto simp: single_push_def)
qed

lemma single_push_connect:
  assumes "sockets w = []" "timers w = []" "\<not> max_error w"
  shows "single_push (connect opts w)"
  using assms by (auto simp: single_push_def connect_def max_error_def Let_def)

lemma single_push_onclose:
  assumes "sockets w = []" "timers w = []" "\<not> max_error w"
  shows "single_push (ws_onclose opts w)"
  using assms by (auto simp: single_push_def ws_onclose_def max_error_def Let_def)

lemma single_push_step:
  assumes "single_push w" "of_browser e"
  shows "single_push (ws_step opts w e)"
proof (cases e)
  case (SocketOpen ws)
  show ?thesis using assms(1) unfolding SocketOpen
    by (auto simp: single_push_def ws_onopen_def max_error_def)
next
  case (SocketMessage ws parsed)
  show ?thesis using assms(1) unfolding SocketMessage
    by (auto simp: single_push_def ws_onmessage_def max_error_def split: option.splits)
next
  case (SocketError ws)
  show ?thesis using assms(1) unfolding SocketError
    by (auto simp: single_push_def ws_onerror_def max_error_def)
next
  case (SocketClose ws)
  show ?thesis
  proof (cases "ws \<in> fst ` set (sockets w)")
    case False
    then show ?thesis using assms(1) unfolding SocketClose by simp
  next
    case True
    with single_push_cases [OF assms(1)] obtain st where
      w: "sockets w = [(ws, st)]" "timers w = []" "\<not> max_error w" by auto
    let ?w = "w\<lparr>sockets := filter (\<lambda>(i, st). i \<noteq> ws) (sockets w)\<rparr>"
    have "sockets ?w = []" "timers ?w = []" "\<not> max_error ?w"
      using w by (simp_all add: max_error_def)
    then have "single_push (ws_onclose opts ?w)" by (rule single_push_onclose)
    then show ?thesis using True unfolding SocketClose by simp
  qed
next
  case (TimerFire t)
  show ?thesis
  proof (cases "t \<in> set (timers w)")
    case False
    then show ?thesis using assms(1) unfolding TimerFire by simp
  next
    case True
    with single_push_cases [OF assms(1)] have
      w: "sockets w = []" "timers w = [t]" "\<not> max_error w" by auto
    let ?w = "w\<lparr>timers := removeAll t (timers w)\<rparr>"
    have "sockets ?w = []" "timers ?w = []" "\<not> max_error ?w"
      using w by (simp_all add: max_error_def)
    then have "single_push (connect opts ?w)" by (rule single_push_connect)
    then show ?thesis using True unfolding TimerFire by simp
  qed
qed (use assms(2) in simp_all)

lemma max_error_cong: "ws_error w = ws_error w' \<Longrightarrow> max_error w = max_error w'"
  by (simp add: max_error_def)

lemma poll_settled_step:
  assumes "poll_settled en p" "of_poll_loop e"
  shows "poll_settled en (poll_step p e)"
proof (cases e)
  case (Tick i)
  show ?thesis using assms(1) unfolding Tick
    by (auto simp: poll_settled_def fetchData_def)
next
  case (FetchSettled outcome at)
  show ?thesis using assms(1) unfolding FetchSettled
    by (auto simp: poll_settled_def fetch_settled_def Let_def split: fetch_outcome.splits)
qed (use assms(2) in simp_all)

lemma poll_settled_render:
  assumes "poll_settled en0 p"
  shows "poll_settled en (poll_render en p)"
proof -
  let ?c = "(interval_cleanup p)\<lparr>enabled := en\<rparr>"
  have c: "intervals ?c = []" "intervalRef ?c = None" "enabled ?c = en"
    using assms by (auto simp: poll_settled_def interval_cleanup_def clear_interval_def split: if_splits)
  let ?f = "initial_fetch_effect ?c"
  have f: "intervals ?f = []" "intervalRef ?f = None" "enabled ?f = en"
    using c by (auto simp: initial_fetch_effect_def fetchData_def)
  show ?thesis
    unfolding poll_render_def using f
    by (auto simp: poll_settled_def interval_effect_def clear_interval_def Let_def)
qed

lemma poll_settled_mount: "poll_settled en (poll_mount (poll_initial en))"
  by (auto simp: poll_settled_def poll_mount_def poll_initial_def initial_fetch_effect_def
      fetchData_def interval_effect_def clear_interval_def Let_def)

lemma supervised_render:
  assumes "single_push (websocket d)" "poll_settled en0 (polling d)"
  shows "supervised (render d)"
proof -
  let ?d1 = "render_once d"
  have d1: "single_push (websocket ?d1)" "poll_settled (mode ?d1 = Polling) (polling ?d1)"
    using assms poll_settled_render [OF assms(2), of "mode d = Polling"]
    by (simp_all add: render_once_def)
  show ?thesis
  proof (cases "fallback_effect ?d1")
    case None
    then have "\<not> max_error (websocket ?d1) \<or> mode ?d1 = Polling"
      by (cases "mode ?d1") (auto simp: fallback_effect_def split: if_splits)
    with d1 None show ?thesis by (simp add: render_def supervised_def)
  next
    case (Some d2)
    then have d2: "mode d2 = Polling" "websocket d2 = websocket ?d1" "polling d2 = polling ?d1"
      by (auto simp: fallback_effect_def split: if_splits)
    have "poll_settled (mode d2 = Polling) (poll_render (mode d2 = Polling) (polling d2))"
      using d1(2) d2(3) poll_settled_render by metis
    then have "supervised (render_once d2)"
      using d1(1) d2 by (simp add: supervised_def render_once_def)
    with Some show ?thesis by (simp add: render_def)
  qed
qed

lemma supervised_rerender:
  assumes "supervised d" "single_push (websocket d')" "poll_settled en0 (polling d')"
    and same: "view d' = view d \<Longrightarrow> polling d' = polling d \<or> poll_settled (mode d = Polling) (polling d')"
  shows "supervised (rerender_if_changed d d')"
proof (cases "view d' = view d")
  case False
  then show ?thesis using supervised_render [OF assms(2,3)] by (simp add: rerender_if_changed_def)
next
  case True
  then have m: "mode d' = mode d" "ws_error (websocket d') = ws_error (websocket d)"
    by (simp_all add: view_def)
  have "poll_settled (mode d = Polling) (polling d')"
    using same [OF True] assms(1) by (auto simp: supervised_def)
  then show ?thesis
    using True m assms(1,2) max_error_cong [OF m(2)]
    by (simp add: rerender_if_changed_def supervised_def)
qed

lemma supervised_step:
  assumes "supervised d"
  shows "supervised (dashboard_step opts d ev)"
proof (cases ev)
  case (SocketEvent e)
  show ?thesis
  proof (cases "of_browser e")
    case False
    then show ?thesis using assms unfolding SocketEvent by simp
  next
    case True
    let ?w = "ws_step opts (websocket d) e"
    let ?d1 = "d\<lparr>websocket := ?w\<rparr>"
    let ?d2 = "if count_list (signals ?w) OnError > count_list (signals (websocket d)) OnError
               then handleWebSocketError ?d1 else ?d1"
    have w: "single_push ?w"
      using assms True by (intro single_push_step) (simp_all add: supervised_def)
    have d2: "websocket ?d2 = ?w" "polling ?d2 = polling d"
      by (simp_all add: handleWebSocketError_def)
    have "supervised (rerender_if_changed d ?d2)"
    proof (rule supervised_rerender [OF assms])
      show "single_push (websocket ?d2)" using w d2 by simp
      show "poll_settled (mode d = Polling) (polling ?d2)"
        using assms d2 by (simp add: supervised_def)
      show "polling ?d2 = polling d \<or> poll_settled (mode d = Polling) (polling ?d2)"
        using d2 by simp
    qed
    then show ?thesis using True unfolding SocketEvent by (simp add: Let_def)
  qed
next
  case (PollingEvent e)
  show ?thesis
  proof (cases "of_poll_loop e")
    case False
    then show ?thesis using assms unfolding PollingEvent by simp
  next
    case True
    let ?p = "poll_step (polling d) e"
    let ?d1 = "d\<lparr>polling := ?p\<rparr>"
    let ?d2 = "if length (onError_calls ?p) > length (onError_calls (polling d))
               then handlePollingError ?d1 else ?d1"
    have p: "poll_settled (mode d = Polling) ?p"
      using assms True by (intro poll_settled_step) (simp_all add: supervised_def)
    have d2: "websocket ?d2 = websocket d" "polling ?d2 = ?p"
      by (simp_all add: handlePollingError_def)
    have "supervised (rerender_if_changed d ?d2)"
    proof (rule supervised_rerender [OF assms])
      show "single_push (websocket ?d2)" using assms d2 by (simp add: supervised_def)
      show "poll_settled (mode d = Polling) (polling ?d2)" using p d2 by simp
      show "polling ?d2 = polling d \<or> poll_settled (mode d = Polling) (polling ?d2)"
        using p d2 by simp
    qed
    then show ?thesis using True unfolding PollingEvent by (simp add: Let_def)
  qed
next
  case (HandleModeChange newMode)
  let ?d2 = "handleModeChange newMode d"
  have d2: "websocket ?d2 = websocket d" "polling ?d2 = polling d"
    by (simp_all add: handleModeChange_def split: option.splits)
  have "supervised (rerender_if_changed d ?d2)"
  proof (rule supervised_rerender [OF assms])
    show "single_push (websocket ?d2)" using assms d2 by (simp add: supervised_def)
    show "poll_settled (mode d = Polling) (polling ?d2)" using assms d2 by (simp add: supervised_def)
    show "polling ?d2 = polling d \<or> poll_settled (mode d = Polling) (polling ?d2)"
      using d2 by simp
  qed
  then show ?thesis unfolding HandleModeChange by simp
qed

lemma supervised_run: "supervised d \<Longrightarrow> supervised (dashboard_run opts d evs)"
  unfolding dashboard_run_def by (induction evs arbitrary: d) (simp_all add: supervised_step)

lemma supervised_mount: "supervised (dashboard_mount opts defaultMode)"
proof -
  let ?d = "\<lparr>mode = defaultMode, snackbarOpen = False, snackbarMessage = [],
               websocket = ws_mount opts ws_initial,
               polling = poll_mount (poll_initial (defaultMode = Polling))\<rparr>"
  have w: "single_push (ws_mount opts ws_initial)" "\<not> max_error (ws_mount opts ws_initial)"
    by (auto simp: single_push_def ws_mount_def connect_def ws_initial_def max_error_def Let_def)
  then have "fallback_effect ?d = None" by (simp add: fallback_effect_def)
  then show ?thesis
    using w poll_settled_mount [of "defaultMode = Polling"]
    by (simp add: dashboard_mount_def supervised_def)
qed


text \<open>
  Claim C2 says that after a switch of mode the deactivated transport leaves no open or
  reconnecting socket.  After a manual switch to polling while the push socket is open,
  the poll interval runs and the push socket is still open; a message on it still
  reaches the push hook.
\<close>

theorem manual_switch_counterexample:
  "mode (dashboard_run default_options (dashboard_mount default_options Websocket)
          [SocketEvent (SocketOpen 0), HandleModeChange (Some Polling)]) = Polling
   \<and> intervals (polling (dashboard_run default_options (dashboard_mount default_options Websocket)
          [SocketEvent (SocketOpen 0), HandleModeChange (Some Polling)])) = [0]
   \<and> sockets (websocket (dashboard_run default_options (dashboard_mount default_options Websocket)
          [SocketEvent (SocketOpen 0), HandleModeChange (Some Polling)])) = [(0, OPEN)]
   \<and> ws_data (websocket (dashboard_run default_options (dashboard_mount default_options Websocket)
          [SocketEvent (SocketOpen 0), HandleModeChange (Some Polling),
           SocketEvent (SocketMessage 0 (Some sample_snapshot))])) = Some sample_snapshot"
  by (simp add: dashboard_run_def dashboard_mount_def default_options_def ws_mount_def connect_def
      ws_initial_def poll_mount_def poll_initial_def initial_fetch_effect_def fetchData_def
      interval_effect_def clear_interval_def interval_cleanup_def poll_render_def
      fallback_effect_def max_error_def ws_onopen_def ws_onmessage_def rerender_if_changed_def
      view_def render_def render_once_def handleModeChange_def Let_def)

text \<open>
  Claim C2, as the code has it.  In every state that the mounted component can reach,
  the poll interval runs exactly in polling mode (one interval then, none in websocket
  mode); the push hook holds at most one socket or timeout whatever the mode; when the
  push hook has given up, the mode is polling and the push hook holds neither socket
  nor timeout; and the snapshot shown is the one of the hook of the current mode.
\<close>

theorem supervisor_follows_mode:
  "d = dashboard_run opts (dashboard_mount opts defaultMode) evs \<longrightarrow>
     (mode d = Polling \<longrightarrow>
        enabled (polling d) \<and> intervals (polling d) = [next_interval (polling d) - 1])
     \<and> (mode d = Websocket \<longrightarrow>
        \<not> enabled (polling d) \<and> intervals (polling d) = [] \<and> intervalRef (polling d) = None
        \<and> \<not> max_error (websocket d))
     \<and> (max_error (websocket d) \<longrightarrow>
        mode d = Polling \<and> sockets (websocket d) = [] \<and> timers (websocket d) = [])
     \<and> length (sockets (websocket d)) + length (timers (websocket d)) \<le> 1
     \<and> activeData d = (if mode d = Websocket then ws_data (websocket d) else poll_data (polling d))"
proof
  assume d: "d = dashboard_run opts (dashboard_mount opts defaultMode) evs"
  have s: "supervised d"
    unfolding d using supervised_mount by (rule supervised_run)
  have p: "enabled (polling d) \<and> intervals (polling d) = [next_interval (polling d) - 1]"
    if "mode d = Polling"
    using s that by (simp add: supervised_def poll_settled_def)
  have w: "\<not> enabled (polling d) \<and> intervals (polling d) = [] \<and> intervalRef (polling d) = None
        \<and> \<not> max_error (websocket d)"
    if "mode d = Websocket"
    using s that by (auto simp: supervised_def poll_settled_def)
  have f: "mode d = Polling \<and> sockets (websocket d) = [] \<and> timers (websocket d) = []"
    if "max_error (websocket d)"
    using s that by (auto simp: supervised_def single_push_def)
  have one: "length (sockets (websocket d)) + length (timers (websocket d)) \<le> 1"
    using s by (simp add: supervised_def single_push_def)
  show "(mode d = Polling \<longrightarrow>
        enabled (polling d) \<and> intervals (polling d) = [next_interval (polling d) - 1])
     \<and> (mode d = Websocket \<longrightarrow>
        \<not> enabled (polling d) \<and> intervals (polling d) = [] \<and> intervalRef (polling d) = None
        \<and> \<not> max_error (websocket d))
     \<and> (max_error (websocket d) \<longrightarrow>
        mode d = Polling \<and> sockets (websocket d) = [] \<and> timers (websocket d) = [])
     \<and> length (sockets (websocket d)) + length (timers (websocket d)) \<le> 1
     \<and> activeData d = (if mode d = Websocket then ws_data (websocket d) else poll_data (polling d))"
    using p w f one by (simp add: activeData_def)
qed

lemma fallback_run:
  "mode (dashboard_run single_retry_options (dashboard_mount single_retry_options Websocket)
      [SocketEvent (SocketError 0), SocketEvent (SocketClose 0), SocketEvent (TimerFire 0),
       SocketEvent (SocketError 1), SocketEvent (SocketClose 1)]) = Polling"
  "ws_error (websocket (dashboard_run single_retry_options (dashboard_mount single_retry_options Websocket)
      [SocketEvent (SocketError 0), SocketEvent (SocketClose 0), SocketEvent (TimerFire 0),
       SocketEvent (SocketError 1), SocketEvent (SocketClose 1)]))
     = Some ''Max reconnection attempts reached''"
  "next_interval (polling (dashboard_run single_retry_options (dashboard_mount single_retry_options Websocket)
      [SocketEvent (SocketError 0), SocketEvent (SocketClose 0), SocketEvent (TimerFire 0),
       SocketEvent (SocketError 1), SocketEvent (SocketClose 1)])) = 1"
  by (simp_all add: dashboard_run_def dashboard_mount_def single_retry_options_def ws_mount_def
      connect_def ws_initial_def poll_mount_def poll_initial_def initial_fetch_effect_def
      fetchData_def interval_effect_def clear_interval_def interval_cleanup_def poll_render_def
      fallback_effect_def max_error_def ws_onerror_def ws_onclose_def rerender_if_changed_def
      view_def render_def render_once_def handleWebSocketError_def Let_def)

theorem supervisor_fallback_witness:
  "mode (dashboard_run single_retry_options (dashboard_mount single_retry_options Websocket)
      [SocketEvent (SocketError 0), SocketEvent (SocketClose 0), SocketEvent (TimerFire 0),
       SocketEvent (SocketError 1), SocketEvent (SocketClose 1)]) = Polling
   \<and> max_error (websocket (dashboard_run single_retry_options (dashboard_mount single_retry_options Websocket)
      [SocketEvent (SocketError 0), SocketEvent (SocketClose 0), SocketEvent (TimerFire 0),
       SocketEvent (SocketError 1), SocketEvent (SocketClose 1)]))
   \<and> sockets (websocket (dashboard_run single_retry_options (dashboard_mount single_retry_options Websocket)
      [SocketEvent (SocketError 0), SocketEvent (SocketClose 0), SocketEvent (TimerFire 0),
       SocketEvent (SocketError 1), SocketEvent (SocketClose 1)])) = []
   \<and> timers (websocket (dashboard_run single_retry_options (dashboard_mount single_retry_options Websocket)
      [SocketEvent (SocketError 0), SocketEvent (SocketClose 0), SocketEvent (TimerFire 0),
       SocketEvent (SocketError 1), SocketEvent (SocketClose 1)])) = []
   \<and> intervals (polling (dashboard_run single_retry_options (dashboard_mount single_retry_options Websocket)
      [SocketEvent (SocketError 0), SocketEvent (SocketClose 0), SocketEvent (TimerFire 0),
       SocketEvent (SocketError 1), SocketEvent (SocketClose 1)])) = [0]"
proof -
  let ?d = "dashboard_run single_retry_options (dashboard_mount single_retry_options Websocket)
      [SocketEvent (SocketError 0), SocketEvent (SocketClose 0), SocketEvent (TimerFire 0),
       SocketEvent (SocketError 1), SocketEvent (SocketClose 1)]"
  have m: "max_error (websocket ?d)" unfolding max_error_def fallback_run(2) by simp
  show ?thesis
    using supervisor_follows_mode [where d = ?d and opts = single_retry_options
        and defaultMode = Websocket
        and evs = "[SocketEvent (SocketError 0), SocketEvent (SocketClose 0), SocketEvent (TimerFire 0),
       SocketEvent (SocketError 1), SocketEvent (SocketClose 1)]"]
      m fallback_run(1,3)
    by simp
qed

end
